theory Spec2Isabelle
  imports Main "HOL-Library.AList" "HOL-Library.Multiset"
begin

section \<open>The room coordinator of keyless-golf (src/src/roomManager.ts)\<close>

text \<open>
  The class \<open>RoomManager\<close> keeps game rooms in a JavaScript \<open>Map\<close> from room ids to
  mutable room objects. The embedding below follows it method by method.

  \<^item> A JavaScript \<open>number\<close> that holds a count, a score or a time stamp is an \<open>int\<close>;
    \<open>currentPlayerIndex\<close>, which the class only ever assigns \<open>0\<close> or a remainder
    modulo \<open>players.length\<close>, is a \<open>nat\<close>.
  \<^item> The \<open>Map\<close> is an association list in insertion order: \<open>Map.get\<close> is
    \<open>map_of\<close>, \<open>Map.set\<close> is \<open>AList.update\<close> (an existing key keeps its place, a
    new key goes last) and \<open>Map.delete\<close> is \<open>AList.delete\<close>.
  \<^item> Room objects are mutated in place, so a change made by a method is visible in the
    store whether or not the method reaches its \<open>this.rooms.set\<close>; the model writes the
    changed room back at every exit.
  \<^item> \<open>Date.now()\<close> is the parameter \<open>now\<close> of each method (one reading per call).
  \<^item> Reading a property of \<open>undefined\<close> raises a \<open>TypeError\<close>; that is the outcome
    \<open>Throws\<close>.
  \<^item> The events sent with \<open>emit\<close> change no room and are left out.
\<close>

subsection \<open>Data\<close>

datatype Status = Waiting | Playing | Completed

record Player =
  player_id :: string
  player_name :: string
  walletAddress :: string
  score :: int
  shotsRemaining :: int
  isConnected :: bool
  isCurrentTurn :: bool

record GameRoom =
  room_id :: string
  room_name :: string
  hostId :: string
  players :: "Player list"
  maxPlayers :: int
  status :: Status
  currentPlayerIndex :: nat
  shotsPerPlayer :: int
  rewardAmount :: int
  created :: int
  lastActivity :: int

type_synonym rooms = "(string \<times> GameRoom) list"

datatype 'a outcome = Returns 'a | Throws

text \<open>\<open>Array.prototype.findIndex\<close>: the first index whose element satisfies the test;
  \<open>None\<close> stands for the result \<open>-1\<close>.\<close>

fun findIndex :: "('a \<Rightarrow> bool) \<Rightarrow> 'a list \<Rightarrow> nat option" where
  "findIndex P [] = None"
| "findIndex P (x # xs) = (if P x then Some 0 else map_option Suc (findIndex P xs))"

text \<open>\<open>players.splice(i, 1)\<close>: the list without its element at index \<open>i\<close>.\<close>

definition splice1 :: "nat \<Rightarrow> 'a list \<Rightarrow> 'a list" where
  "splice1 i xs = take i xs @ drop (Suc i) xs"

subsection \<open>getWinner\<close>

text \<open>The loop of \<open>getWinner\<close> over the players, with its two variables
  \<open>highestScore\<close> and \<open>winner\<close>.\<close>

fun winner_loop :: "Player list \<Rightarrow> int \<Rightarrow> Player option \<Rightarrow> Player option" where
  "winner_loop [] highestScore winner = winner"
| "winner_loop (player # ps) highestScore winner =
     (if score player > highestScore then winner_loop ps (score player) (Some player)
      else if score player = highestScore \<and> highestScore > 0 then
        (case winner of
           None \<Rightarrow> winner_loop ps highestScore (Some player)
         | Some w \<Rightarrow> winner_loop ps highestScore winner)
      else winner_loop ps highestScore winner)"

definition getWinner :: "string \<Rightarrow> rooms \<Rightarrow> Player option" where
  "getWinner roomId st =
     (case map_of st roomId of
        None \<Rightarrow> None
      | Some room \<Rightarrow>
          if status room \<noteq> Completed then None
          else winner_loop (players room) (- 1) None)"

text \<open>The player the specification names as the winner: the first one, in list order,
  whose score is the maximum of all scores.\<close>

definition first_with_max_score :: "Player list \<Rightarrow> Player option" where
  "first_with_max_score ps = find (\<lambda>p. score p = Max (score ` set ps)) ps"

subsection \<open>createRoom, getRoom, getActiveRooms\<close>

text \<open>\<open>createRoom\<close> stores the new room under the id that \<open>generateRoomId\<close> returned.
  That method draws random ids until one is not a key of the store; the id it settles
  on is the parameter \<open>roomId\<close> here.\<close>

definition createRoom ::
  "string \<Rightarrow> string \<Rightarrow> string \<Rightarrow> string \<Rightarrow> string \<Rightarrow> int \<Rightarrow> int \<Rightarrow> int \<Rightarrow> int \<Rightarrow> rooms
     \<Rightarrow> GameRoom \<times> rooms" where
  "createRoom roomId host hostName wallet roomName maxP shots reward now st =
     (let room = \<lparr>room_id = roomId, room_name = roomName, hostId = host,
                  players = [\<lparr>player_id = host, player_name = hostName, walletAddress = wallet,
                              score = 0, shotsRemaining = shots, isConnected = True,
                              isCurrentTurn = True\<rparr>],
                  maxPlayers = maxP, status = Waiting, currentPlayerIndex = 0,
                  shotsPerPlayer = shots, rewardAmount = reward, created = now,
                  lastActivity = now\<rparr>
      in (room, AList.update roomId room st))"

definition getRoom :: "int \<Rightarrow> string \<Rightarrow> rooms \<Rightarrow> GameRoom option \<times> rooms" where
  "getRoom now roomId st =
     (case map_of st roomId of
        None \<Rightarrow> (None, st)
      | Some room \<Rightarrow>
          (let room' = room\<lparr>lastActivity := now\<rparr>
           in (Some room', AList.update roomId room' st)))"

definition maxInactiveTime :: int where
  "maxInactiveTime = 24 * 60 * 60 * 1000"

text \<open>The filter of \<open>getActiveRooms\<close>, and the method: \<open>Array.prototype.sort\<close> is
  stable, and so is \<open>sort_key\<close>; the comparator \<open>b.created - a.created\<close> orders by
  descending \<open>created\<close>, which is ascending \<open>- created\<close>.\<close>

definition isActive :: "int \<Rightarrow> GameRoom \<Rightarrow> bool" where
  "isActive now room =
     (status room = Waiting \<or>
      (status room = Playing \<and> now - lastActivity room < maxInactiveTime))"

definition getActiveRooms :: "int \<Rightarrow> rooms \<Rightarrow> GameRoom list" where
  "getActiveRooms now st =
     sort_key (\<lambda>room. - created room) (filter (isActive now) (map snd st))"

subsection \<open>addPlayerToRoom, updatePlayerInRoom, updateRoom\<close>

definition addPlayerToRoom :: "int \<Rightarrow> string \<Rightarrow> Player \<Rightarrow> rooms \<Rightarrow> bool \<times> rooms" where
  "addPlayerToRoom now roomId player st =
     (case map_of st roomId of
        None \<Rightarrow> (False, st)
      | Some room \<Rightarrow>
          if int (length (players room)) \<ge> maxPlayers room then (False, st)
          else if status room \<noteq> Waiting then (False, st)
          else
            (let ps =
               (case findIndex (\<lambda>p. player_id p = player_id player) (players room) of
                  Some existingPlayerIndex \<Rightarrow>
                    (players room)[existingPlayerIndex :=
                       player\<lparr>shotsRemaining := shotsPerPlayer room, isConnected := True\<rparr>]
                | None \<Rightarrow>
                    players room @
                      [player\<lparr>score := 0, shotsRemaining := shotsPerPlayer room,
                              isConnected := True, isCurrentTurn := False\<rparr>])
             in (True, AList.update roomId (room\<lparr>players := ps, lastActivity := now\<rparr>) st)))"

definition updatePlayerInRoom :: "int \<Rightarrow> string \<Rightarrow> Player \<Rightarrow> rooms \<Rightarrow> bool \<times> rooms" where
  "updatePlayerInRoom now roomId updatedPlayer st =
     (case map_of st roomId of
        None \<Rightarrow> (False, st)
      | Some room \<Rightarrow>
          (case findIndex (\<lambda>p. player_id p = player_id updatedPlayer) (players room) of
             None \<Rightarrow> (False, st)
           | Some playerIndex \<Rightarrow>
               (True, AList.update roomId
                  (room\<lparr>players := (players room)[playerIndex := updatedPlayer],
                         lastActivity := now\<rparr>) st)))"

text \<open>A \<open>Partial<GameRoom>\<close>: each field is present or not. The spread
  \<open>{...room, ...updates, lastActivity: Date.now()}\<close> takes every present field from
  \<open>updates\<close> and the time stamp from the clock.\<close>

record RoomUpdates =
  upd_id :: "string option"
  upd_name :: "string option"
  upd_hostId :: "string option"
  upd_players :: "Player list option"
  upd_maxPlayers :: "int option"
  upd_status :: "Status option"
  upd_currentPlayerIndex :: "nat option"
  upd_shotsPerPlayer :: "int option"
  upd_rewardAmount :: "int option"
  upd_created :: "int option"
  upd_lastActivity :: "int option"

definition spread :: "'a \<Rightarrow> 'a option \<Rightarrow> 'a" where
  "spread old new = (case new of None \<Rightarrow> old | Some v \<Rightarrow> v)"

definition updateRoom :: "int \<Rightarrow> string \<Rightarrow> RoomUpdates \<Rightarrow> rooms \<Rightarrow> bool \<times> rooms" where
  "updateRoom now roomId updates st =
     (case map_of st roomId of
        None \<Rightarrow> (False, st)
      | Some room \<Rightarrow>
          (let updatedRoom =
             \<lparr>room_id = spread (room_id room) (upd_id updates),
              room_name = spread (room_name room) (upd_name updates),
              hostId = spread (hostId room) (upd_hostId updates),
              players = spread (players room) (upd_players updates),
              maxPlayers = spread (maxPlayers room) (upd_maxPlayers updates),
              status = spread (status room) (upd_status updates),
              currentPlayerIndex =
                spread (currentPlayerIndex room) (upd_currentPlayerIndex updates),
              shotsPerPlayer = spread (shotsPerPlayer room) (upd_shotsPerPlayer updates),
              rewardAmount = spread (rewardAmount room) (upd_rewardAmount updates),
              created = spread (created room) (upd_created updates),
              lastActivity = now\<rparr>
           in (True, AList.update roomId updatedRoom st)))"

subsection \<open>startGame, nextTurn\<close>

text \<open>The loop \<open>for (i = 0; ...) players[i].isCurrentTurn = i === 0\<close>, from index \<open>i\<close> on.\<close>

fun mark_first_turn :: "nat \<Rightarrow> Player list \<Rightarrow> Player list" where
  "mark_first_turn i [] = []"
| "mark_first_turn i (p # ps) = p\<lparr>isCurrentTurn := (i = 0)\<rparr> # mark_first_turn (Suc i) ps"

definition startGame :: "int \<Rightarrow> string \<Rightarrow> rooms \<Rightarrow> bool \<times> rooms" where
  "startGame now roomId st =
     (case map_of st roomId of
        None \<Rightarrow> (False, st)
      | Some room \<Rightarrow>
          if length (players room) < 2 then (False, st)
          else (True, AList.update roomId
                  (room\<lparr>status := Playing, currentPlayerIndex := 0,
                         players := mark_first_turn 0 (players room),
                         lastActivity := now\<rparr>) st))"

text \<open>The \<open>do ... while\<close> loop of \<open>nextTurn\<close>, entered with the loop variables
  \<open>nextPlayerIndex\<close> and \<open>fullLoopCount\<close>. It ends in one of three ways: the loop
  condition fails at an eligible player (\<open>Found\<close>), the second wrap-around to index 0
  returns from the method (\<open>Exhausted\<close>), or, on an empty player list, the index is
  \<open>NaN\<close>, the player \<open>undefined\<close> and the loop condition raises (\<open>ScanThrows\<close>).\<close>

datatype scan_result = Found nat | Exhausted | ScanThrows

function next_player_loop :: "Player list \<Rightarrow> nat \<Rightarrow> nat \<Rightarrow> scan_result" where
  "next_player_loop ps nextPlayerIndex fullLoopCount =
     (if ps = [] then (if fullLoopCount > 1 then Exhausted else ScanThrows)
      else
        (let idx = (nextPlayerIndex + 1) mod length ps;
             cnt = (if idx = 0 then fullLoopCount + 1 else fullLoopCount)
         in if cnt > 1 then Exhausted
            else if shotsRemaining (ps ! idx) \<le> 0 \<or> \<not> isConnected (ps ! idx)
              then next_player_loop ps idx cnt
              else Found idx))"
  by pat_completeness auto

termination
proof (relation "measure (\<lambda>(ps, i, c). (2 - c) * (length ps + 1)
          + (if i < length ps then length ps - 1 - i else length ps))", goal_cases)
  case 1
  show ?case by simp
next
  case (2 ps i c idx cnt)
  let ?n = "length ps"
  from 2 have n: "0 < ?n" by simp
  from 2 have idx: "idx = Suc i mod ?n" by simp
  from 2 have cnt: "cnt = (if idx = 0 then c + 1 else c)" "cnt \<le> 1" by simp_all
  from n idx have lt: "idx < ?n" by simp
  show ?case
  proof (cases "idx = 0")
    case True
    with cnt have c0: "c = 0" "cnt = 1" by simp_all
    show ?thesis using True c0 n by simp
  next
    case False
    with cnt have same: "cnt = c" by simp
    have "Suc i mod ?n = Suc i \<or> Suc i mod ?n < Suc i"
      by (metis mod_less_eq_dividend le_neq_implies_less)
    with idx False lt have "i < ?n \<and> idx = Suc i \<or> \<not> i < ?n"
      by (metis mod_less mod_self Suc_lessI)
    then show ?thesis using same lt False by auto
  qed
qed

declare next_player_loop.simps [simp del]

text \<open>The body of \<open>nextTurn\<close> once the room object is at hand: the outcome and the room
  object as the method leaves it.\<close>

definition nextTurn_room :: "int \<Rightarrow> GameRoom \<Rightarrow> bool outcome \<times> GameRoom" where
  "nextTurn_room now room =
     (if status room \<noteq> Playing then (Returns False, room)
      else
        (case next_player_loop (players room) (currentPlayerIndex room) 0 of
           ScanThrows \<Rightarrow> (Throws, room)
         | Exhausted \<Rightarrow> (Returns True, room\<lparr>status := Completed, lastActivity := now\<rparr>)
         | Found nextPlayerIndex \<Rightarrow>
             (let cleared = map (\<lambda>p. p\<lparr>isCurrentTurn := False\<rparr>) (players room);
                  ps = cleared[nextPlayerIndex :=
                         (cleared ! nextPlayerIndex)\<lparr>isCurrentTurn := True\<rparr>];
                  allShotsUsed = list_all (\<lambda>p. shotsRemaining p \<le> 0 \<or> \<not> isConnected p) ps
              in (Returns True,
                  room\<lparr>players := ps, currentPlayerIndex := nextPlayerIndex,
                        status := (if allShotsUsed then Completed else status room),
                        lastActivity := now\<rparr>))))"

definition nextTurn :: "int \<Rightarrow> string \<Rightarrow> rooms \<Rightarrow> bool outcome \<times> rooms" where
  "nextTurn now roomId st =
     (case map_of st roomId of
        None \<Rightarrow> (Returns False, st)
      | Some room \<Rightarrow>
          (case nextTurn_room now room of
             (res, room') \<Rightarrow> (res, AList.update roomId room' st)))"

subsection \<open>updatePlayerScore, resetGame\<close>

text \<open>\<open>players.find\<close> yields the first player object with the id, which the method then
  mutates; the model finds its index and replaces the element there.\<close>

definition updatePlayerScore :: "int \<Rightarrow> string \<Rightarrow> string \<Rightarrow> int \<Rightarrow> rooms \<Rightarrow> bool \<times> rooms" where
  "updatePlayerScore now roomId playerId s st =
     (case map_of st roomId of
        None \<Rightarrow> (False, st)
      | Some room \<Rightarrow>
          (case findIndex (\<lambda>p. player_id p = playerId) (players room) of
             None \<Rightarrow> (False, st)
           | Some i \<Rightarrow>
               (let player = players room ! i
                in if \<not> isCurrentTurn player then (False, st)
                   else (True, AList.update roomId
                          (room\<lparr>players := (players room)[i :=
                                   player\<lparr>score := score player + s,
                                          shotsRemaining := shotsRemaining player - 1\<rparr>],
                                 lastActivity := now\<rparr>) st))))"

text \<open>\<open>resetGame\<close> reads \<open>players[0].isCurrentTurn\<close> after it has reset the scores, the
  status and the index: on an empty player list that read raises, and the room keeps the
  changes made so far.\<close>

definition resetGame :: "int \<Rightarrow> string \<Rightarrow> rooms \<Rightarrow> bool outcome \<times> rooms" where
  "resetGame now roomId st =
     (case map_of st roomId of
        None \<Rightarrow> (Returns False, st)
      | Some room \<Rightarrow>
          (let ps = map (\<lambda>p. p\<lparr>score := 0, shotsRemaining := shotsPerPlayer room\<rparr>)
                      (players room);
               room1 = room\<lparr>players := ps, status := Waiting, currentPlayerIndex := 0\<rparr>
           in case ps of
                [] \<Rightarrow> (Throws, AList.update roomId room1 st)
              | p0 # rest \<Rightarrow>
                  (Returns True, AList.update roomId
                     (room1\<lparr>players := p0\<lparr>isCurrentTurn := True\<rparr>
                                # map (\<lambda>p. p\<lparr>isCurrentTurn := False\<rparr>) rest,
                            lastActivity := now\<rparr>) st)))"

subsection \<open>removeRoom, removePlayerFromRoom\<close>

definition removeRoom :: "string \<Rightarrow> rooms \<Rightarrow> bool \<times> rooms" where
  "removeRoom roomId st =
     (if map_of st roomId = None then (False, st) else (True, AList.delete roomId st))"

text \<open>The first part of \<open>removePlayerFromRoom\<close>: in a running game the player is marked
  as disconnected and, if the turn was theirs, \<open>nextTurn\<close> runs on the same room object;
  in any other state the player is spliced out.\<close>

definition detach_player :: "int \<Rightarrow> nat \<Rightarrow> GameRoom \<Rightarrow> bool outcome \<times> GameRoom" where
  "detach_player now playerIndex room =
     (if status room = Playing then
        (let room1 = room\<lparr>players := (players room)[playerIndex :=
                             (players room ! playerIndex)\<lparr>isConnected := False\<rparr>]\<rparr>
         in if isCurrentTurn (players room1 ! playerIndex)
            then (case nextTurn_room now room1 of
                    (Throws, room2) \<Rightarrow> (Throws, room2)
                  | (Returns b, room2) \<Rightarrow> (Returns True, room2))
            else (Returns True, room1))
      else (Returns True, room\<lparr>players := splice1 playerIndex (players room)\<rparr>))"

definition removePlayerFromRoom :: "int \<Rightarrow> string \<Rightarrow> string \<Rightarrow> rooms \<Rightarrow> bool outcome \<times> rooms" where
  "removePlayerFromRoom now roomId playerId st =
     (case map_of st roomId of
        None \<Rightarrow> (Returns False, st)
      | Some room \<Rightarrow>
          (case findIndex (\<lambda>p. player_id p = playerId) (players room) of
             None \<Rightarrow> (Returns False, st)
           | Some playerIndex \<Rightarrow>
               (case detach_player now playerIndex room of
                  (Throws, room1) \<Rightarrow> (Throws, AList.update roomId room1 st)
                | (Returns b, room1) \<Rightarrow>
                    if players room1 = [] \<or> list_all (\<lambda>p. \<not> isConnected p) (players room1)
                    then (Returns True, snd (removeRoom roomId st))
                    else
                      (let room2 =
                         (if playerId = hostId room1 \<and> length (players room1) > 0 then
                            (case find isConnected (players room1) of
                               Some player \<Rightarrow> room1\<lparr>hostId := player_id player\<rparr>
                             | None \<Rightarrow> room1)
                          else room1)
                       in (Returns True,
                           AList.update roomId (room2\<lparr>lastActivity := now\<rparr>) st)))))"

subsection \<open>Sequences of calls\<close>

text \<open>A call of one of the mutating methods, and the store it leaves behind, whether the
  call returned or raised. \<open>run\<close> makes the calls of a list in order, each with the
  clock reading it is paired with.\<close>

datatype op =
    CreateRoom string string string string string int int int
  | AddPlayerToRoom string Player
  | RemovePlayerFromRoom string string
  | UpdatePlayerInRoom string Player
  | UpdateRoom string RoomUpdates
  | StartGame string
  | NextTurn string
  | UpdatePlayerScore string string int
  | ResetGame string

fun apply_op :: "int \<Rightarrow> op \<Rightarrow> rooms \<Rightarrow> rooms" where
  "apply_op now (CreateRoom roomId host hostName wallet roomName maxP shots reward) st =
     snd (createRoom roomId host hostName wallet roomName maxP shots reward now st)"
| "apply_op now (AddPlayerToRoom roomId player) st = snd (addPlayerToRoom now roomId player st)"
| "apply_op now (RemovePlayerFromRoom roomId playerId) st =
     snd (removePlayerFromRoom now roomId playerId st)"
| "apply_op now (UpdatePlayerInRoom roomId player) st =
     snd (updatePlayerInRoom now roomId player st)"
| "apply_op now (UpdateRoom roomId updates) st = snd (updateRoom now roomId updates st)"
| "apply_op now (StartGame roomId) st = snd (startGame now roomId st)"
| "apply_op now (NextTurn roomId) st = snd (nextTurn now roomId st)"
| "apply_op now (UpdatePlayerScore roomId playerId s) st =
     snd (updatePlayerScore now roomId playerId s st)"
| "apply_op now (ResetGame roomId) st = snd (resetGame now roomId st)"

fun run :: "(int \<times> op) list \<Rightarrow> rooms \<Rightarrow> rooms" where
  "run [] st = st"
| "run ((now, c) # cs) st = run cs (apply_op now c st)"

text \<open>\<open>allowed g cs st\<close>: every call of \<open>cs\<close>, made in order from the store \<open>st\<close>,
  passes the test \<open>g\<close> in the store it is made in.\<close>

fun allowed :: "(rooms \<Rightarrow> op \<Rightarrow> bool) \<Rightarrow> (int \<times> op) list \<Rightarrow> rooms \<Rightarrow> bool" where
  "allowed g [] st = True"
| "allowed g ((now, c) # cs) st = (g st c \<and> allowed g cs (apply_op now c st))"

text \<open>The calls that go through the turn and score rules: all but the two direct
  replacements \<open>updatePlayerInRoom\<close> and \<open>updateRoom\<close>.\<close>

fun by_the_rules :: "rooms \<Rightarrow> op \<Rightarrow> bool" where
  "by_the_rules st (UpdatePlayerInRoom roomId player) = False"
| "by_the_rules st (UpdateRoom roomId updates) = False"
| "by_the_rules st c = True"

text \<open>The calls that keep the shot counters in range: rooms are created with a shot count
  that is not negative, and a score is only submitted for a player who has a shot left
  (or the submission is one that \<open>updatePlayerScore\<close> rejects).\<close>

fun has_shot_left :: "rooms \<Rightarrow> op \<Rightarrow> bool" where
  "has_shot_left st (CreateRoom roomId host hostName wallet roomName maxP shots reward) =
     (0 \<le> shots)"
| "has_shot_left st (UpdatePlayerScore roomId playerId s) =
     (case map_of st roomId of
        None \<Rightarrow> True
      | Some room \<Rightarrow>
          (case find (\<lambda>p. player_id p = playerId) (players room) of
             None \<Rightarrow> True
           | Some player \<Rightarrow> \<not> isCurrentTurn player \<or> 1 \<le> shotsRemaining player))"
| "has_shot_left st c = by_the_rules st c"

text \<open>\<open>n\<close> calls of \<open>updatePlayerScore\<close> in a row with the same arguments, up to the first
  that is rejected.\<close>

fun updatePlayerScore_times ::
  "nat \<Rightarrow> int \<Rightarrow> string \<Rightarrow> string \<Rightarrow> int \<Rightarrow> rooms \<Rightarrow> bool \<times> rooms" where
  "updatePlayerScore_times 0 now roomId playerId s st = (True, st)"
| "updatePlayerScore_times (Suc n) now roomId playerId s st =
     (case updatePlayerScore now roomId playerId s st of
        (ok, st') \<Rightarrow>
          if ok then updatePlayerScore_times n now roomId playerId s st' else (False, st'))"

subsection \<open>The properties the specification states\<close>

text \<open>No shot counter of the store is negative (and no room would hand out a negative
  counter to a player who joins).\<close>

definition shots_in_range :: "GameRoom \<Rightarrow> bool" where
  "shots_in_range room =
     (0 \<le> shotsPerPlayer room \<and> (\<forall>p \<in> set (players room). 0 \<le> shotsRemaining p))"

text \<open>The same for a list of players alone, and a property of a room stated of every
  room of the store.\<close>

definition shots_ok :: "Player list \<Rightarrow> bool" where
  "shots_ok ps = (\<forall>x \<in> set (map shotsRemaining ps). 0 \<le> x)"

definition every_room :: "(GameRoom \<Rightarrow> bool) \<Rightarrow> rooms \<Rightarrow> bool" where
  "every_room P st = (\<forall>room \<in> snd ` set st. P room)"

text \<open>In a running game exactly one player holds the turn, and \<open>currentPlayerIndex\<close>
  is the index of a player who holds it.\<close>

definition turn_ok :: "GameRoom \<Rightarrow> bool" where
  "turn_ok room =
     (status room = Playing \<longrightarrow>
        length (filter isCurrentTurn (players room)) = 1 \<and>
        currentPlayerIndex room < length (players room) \<and>
        isCurrentTurn (players room ! currentPlayerIndex room))"

text \<open>The player \<open>nextTurn\<close> is to find, in the words of the specification: the first
  one with a shot left who is connected, in list order from just after the current index
  and around the end of the list, the current player coming last.\<close>

definition eligible :: "Player \<Rightarrow> bool" where
  "eligible p = (0 < shotsRemaining p \<and> isConnected p)"



text \<open>\<open>hold_turn j ps\<close>: the players \<open>ps\<close> with the player at index \<open>j\<close> as the only holder
  of the turn. \<open>advanceTurn_spec\<close> is turn advancement as the specification words it: it
  fails for an unknown room and outside a running game; with no eligible player the
  game is completed; otherwise the next eligible player holds the turn and
  \<open>currentPlayerIndex\<close> is that player's index. The search is circular, so the place it
  starts from is \<open>currentPlayerIndex\<close> modulo the number of players (the index itself
  when it is an index into the list).\<close>

definition hold_turn :: "nat \<Rightarrow> Player list \<Rightarrow> Player list" where
  "hold_turn j ps = map (\<lambda>k. (ps ! k)\<lparr>isCurrentTurn := (k = j)\<rparr>) [0 ..< length ps]"



text \<open>The rooms \<open>listActive\<close> is to return, in the words of the specification.\<close>

definition listed_by_spec :: "int \<Rightarrow> GameRoom \<Rightarrow> bool" where
  "listed_by_spec now room =
     (status room = Waiting \<or>
      ((status room = Playing \<or> status room = Completed) \<and>
       now - lastActivity room < maxInactiveTime))"

subsection \<open>Example rooms\<close>

text \<open>Three players and the stores of a small session: Hana creates room \<open>R1\<close> with one
  shot per player, then Pia and Quinn join. The player objects are the ones a caller
  hands to \<open>addPlayerToRoom\<close>; Pia's claims the turn and a score, which joining
  overwrites.\<close>

definition pia :: Player where
  "pia = \<lparr>player_id = ''P'', player_name = ''Pia'', walletAddress = ''GP'', score = 9,
          shotsRemaining = 0, isConnected = False, isCurrentTurn = True\<rparr>"

definition quinn :: Player where
  "quinn = \<lparr>player_id = ''Q'', player_name = ''Quinn'', walletAddress = ''GQ'', score = 0,
            shotsRemaining = 0, isConnected = True, isCurrentTurn = False\<rparr>"

definition lobby1 :: rooms where
  "lobby1 = snd (createRoom ''R1'' ''H'' ''Hana'' ''GH'' ''Room'' 4 1 7 100 [])"

definition lobby2 :: rooms where
  "lobby2 = snd (addPlayerToRoom 101 ''R1'' pia lobby1)"

definition lobby3 :: rooms where
  "lobby3 = snd (addPlayerToRoom 102 ''R1'' quinn lobby2)"

text \<open>The game in room \<open>R1\<close>: it starts with three players, each in turn submits one
  score (\<open>a\<close>, \<open>b\<close> and \<open>c\<close>) and passes the turn on. \<open>last_shot\<close> is the store before
  the third \<open>nextTurn\<close>, \<open>played\<close> the store after it.\<close>

definition started :: rooms where
  "started = snd (startGame 103 ''R1'' lobby3)"

definition last_shot :: "int \<Rightarrow> int \<Rightarrow> int \<Rightarrow> rooms" where
  "last_shot a b c =
     run [(104, UpdatePlayerScore ''R1'' ''H'' a), (105, NextTurn ''R1''),
          (106, UpdatePlayerScore ''R1'' ''P'' b), (107, NextTurn ''R1''),
          (108, UpdatePlayerScore ''R1'' ''Q'' c)] started"

definition played :: "int \<Rightarrow> int \<Rightarrow> int \<Rightarrow> rooms" where
  "played a b c = snd (nextTurn 109 ''R1'' (last_shot a b c))"



text \<open>Sequences of calls on room \<open>R1\<close>. \<open>warm_up\<close> leads to the store \<open>started\<close>. In
  \<open>mid_game\<close> Hana shoots, the turn passes to Pia, and Pia leaves while the turn is hers;
  \<open>fair_game\<close> goes on to Quinn's shot, the end of the game and a reset. In
  \<open>greedy_game\<close> Hana submits two scores with her one shot. \<open>replaced_game\<close> and
  \<open>moved_game\<close> use the two direct replacements on the running game: a player object
  that claims the turn, and an index that points away from the holder of the turn.
  \<open>emptied_game\<close> uses \<open>updateRoom\<close> to leave the running game without players.\<close>

definition warm_up :: "(int \<times> op) list" where
  "warm_up =
     [(100, CreateRoom ''R1'' ''H'' ''Hana'' ''GH'' ''Room'' 4 1 7),
      (101, AddPlayerToRoom ''R1'' pia), (102, AddPlayerToRoom ''R1'' quinn),
      (103, StartGame ''R1'')]"

definition mid_game :: "(int \<times> op) list" where
  "mid_game = warm_up @
     [(104, UpdatePlayerScore ''R1'' ''H'' 5), (105, NextTurn ''R1''),
      (106, RemovePlayerFromRoom ''R1'' ''P'')]"

definition fair_game :: "(int \<times> op) list" where
  "fair_game = mid_game @
     [(107, UpdatePlayerScore ''R1'' ''Q'' 2), (108, NextTurn ''R1''), (109, ResetGame ''R1'')]"

definition greedy_game :: "(int \<times> op) list" where
  "greedy_game = warm_up @
     [(104, UpdatePlayerScore ''R1'' ''H'' 5), (105, UpdatePlayerScore ''R1'' ''H'' 5)]"

definition no_updates :: RoomUpdates where
  "no_updates = \<lparr>upd_id = None, upd_name = None, upd_hostId = None, upd_players = None,
     upd_maxPlayers = None, upd_status = None, upd_currentPlayerIndex = None,
     upd_shotsPerPlayer = None, upd_rewardAmount = None, upd_created = None,
     upd_lastActivity = None\<rparr>"

definition replaced_game :: "(int \<times> op) list" where
  "replaced_game = warm_up @ [(104, UpdatePlayerInRoom ''R1'' pia)]"

definition moved_game :: "(int \<times> op) list" where
  "moved_game = warm_up @
     [(104, UpdateRoom ''R1'' (no_updates\<lparr>upd_currentPlayerIndex := Some 1\<rparr>))]"


section \<open>Properties\<close>

subsection \<open>Array searches\<close>

lemma findIndex_None: "findIndex P xs = None \<longleftrightarrow> (\<forall>x\<in>set xs. \<not> P x)"
  by (induction xs) auto

lemma findIndex_Some:
  "findIndex P xs = Some i \<Longrightarrow> i < length xs \<and> P (xs ! i) \<and> (\<forall>j<i. \<not> P (xs ! j))"
proof (induction xs arbitrary: i)
  case Nil
  then show ?case by simp
next
  case (Cons x xs)
  show ?case
  proof (cases "P x")
    case True
    with Cons.prems show ?thesis by simp
  next
    case False
    with Cons.prems obtain k where k: "findIndex P xs = Some k" "i = Suc k" by auto
    from Cons.IH [OF k(1)] False k(2) show ?thesis
      by (auto simp: nth_Cons split: nat.splits)
  qed
qed

lemma findIndex_find:
  "find P xs = (case findIndex P xs of None \<Rightarrow> None | Some i \<Rightarrow> Some (xs ! i))"
  by (induction xs) (auto split: option.splits)

lemma find_findIndex:
  "find P xs = Some p \<Longrightarrow> \<exists>i. findIndex P xs = Some i \<and> xs ! i = p"
  by (simp add: findIndex_find split: option.splits)

subsection \<open>The example stores, evaluated\<close>

lemma lobby1_eq:
  "lobby1 = [(''R1'',
     \<lparr>room_id = ''R1'', room_name = ''Room'', hostId = ''H'',
      players = [\<lparr>player_id = ''H'', player_name = ''Hana'', walletAddress = ''GH'',
                  score = 0, shotsRemaining = 1, isConnected = True, isCurrentTurn = True\<rparr>],
      maxPlayers = 4, status = Waiting, currentPlayerIndex = 0, shotsPerPlayer = 1,
      rewardAmount = 7, created = 100, lastActivity = 100\<rparr>)]"
  by (simp add: lobby1_def createRoom_def Let_def)

lemma lobby2_eq:
  "lobby2 = [(''R1'',
     \<lparr>room_id = ''R1'', room_name = ''Room'', hostId = ''H'',
      players = [\<lparr>player_id = ''H'', player_name = ''Hana'', walletAddress = ''GH'',
                  score = 0, shotsRemaining = 1, isConnected = True, isCurrentTurn = True\<rparr>,
                 \<lparr>player_id = ''P'', player_name = ''Pia'', walletAddress = ''GP'',
                  score = 0, shotsRemaining = 1, isConnected = True, isCurrentTurn = False\<rparr>],
      maxPlayers = 4, status = Waiting, currentPlayerIndex = 0, shotsPerPlayer = 1,
      rewardAmount = 7, created = 100, lastActivity = 101\<rparr>)]"
  by (simp add: lobby2_def lobby1_eq addPlayerToRoom_def pia_def)

lemma lobby3_eq:
  "lobby3 = [(''R1'',
     \<lparr>room_id = ''R1'', room_name = ''Room'', hostId = ''H'',
      players = [\<lparr>player_id = ''H'', player_name = ''Hana'', walletAddress = ''GH'',
                  score = 0, shotsRemaining = 1, isConnected = True, isCurrentTurn = True\<rparr>,
                 \<lparr>player_id = ''P'', player_name = ''Pia'', walletAddress = ''GP'',
                  score = 0, shotsRemaining = 1, isConnected = True, isCurrentTurn = False\<rparr>,
                 \<lparr>player_id = ''Q'', player_name = ''Quinn'', walletAddress = ''GQ'',
                  score = 0, shotsRemaining = 1, isConnected = True, isCurrentTurn = False\<rparr>],
      maxPlayers = 4, status = Waiting, currentPlayerIndex = 0, shotsPerPlayer = 1,
      rewardAmount = 7, created = 100, lastActivity = 102\<rparr>)]"
  by (simp add: lobby3_def lobby2_eq addPlayerToRoom_def quinn_def)

lemma started_eq:
  "started = [(''R1'',
     \<lparr>room_id = ''R1'', room_name = ''Room'', hostId = ''H'',
      players = [\<lparr>player_id = ''H'', player_name = ''Hana'', walletAddress = ''GH'',
                  score = 0, shotsRemaining = 1, isConnected = True, isCurrentTurn = True\<rparr>,
                 \<lparr>player_id = ''P'', player_name = ''Pia'', walletAddress = ''GP'',
                  score = 0, shotsRemaining = 1, isConnected = True, isCurrentTurn = False\<rparr>,
                 \<lparr>player_id = ''Q'', player_name = ''Quinn'', walletAddress = ''GQ'',
                  score = 0, shotsRemaining = 1, isConnected = True, isCurrentTurn = False\<rparr>],
      maxPlayers = 4, status = Playing, currentPlayerIndex = 0, shotsPerPlayer = 1,
      rewardAmount = 7, created = 100, lastActivity = 103\<rparr>)]"
  by (simp add: started_def lobby3_eq startGame_def)

lemma last_shot_eq:
  "last_shot a b c = [(''R1'',
     \<lparr>room_id = ''R1'', room_name = ''Room'', hostId = ''H'',
      players = [\<lparr>player_id = ''H'', player_name = ''Hana'', walletAddress = ''GH'',
                  score = a, shotsRemaining = 0, isConnected = True, isCurrentTurn = False\<rparr>,
                 \<lparr>player_id = ''P'', player_name = ''Pia'', walletAddress = ''GP'',
                  score = b, shotsRemaining = 0, isConnected = True, isCurrentTurn = False\<rparr>,
                 \<lparr>player_id = ''Q'', player_name = ''Quinn'', walletAddress = ''GQ'',
                  score = c, shotsRemaining = 0, isConnected = True, isCurrentTurn = True\<rparr>],
      maxPlayers = 4, status = Playing, currentPlayerIndex = 2, shotsPerPlayer = 1,
      rewardAmount = 7, created = 100, lastActivity = 108\<rparr>)]"
  by (simp add: last_shot_def started_eq updatePlayerScore_def nextTurn_def nextTurn_room_def
      next_player_loop.simps Let_def)

lemma played_eq:
  "played a b c = [(''R1'',
     \<lparr>room_id = ''R1'', room_name = ''Room'', hostId = ''H'',
      players = [\<lparr>player_id = ''H'', player_name = ''Hana'', walletAddress = ''GH'',
                  score = a, shotsRemaining = 0, isConnected = True, isCurrentTurn = False\<rparr>,
                 \<lparr>player_id = ''P'', player_name = ''Pia'', walletAddress = ''GP'',
                  score = b, shotsRemaining = 0, isConnected = True, isCurrentTurn = False\<rparr>,
                 \<lparr>player_id = ''Q'', player_name = ''Quinn'', walletAddress = ''GQ'',
                  score = c, shotsRemaining = 0, isConnected = True, isCurrentTurn = True\<rparr>],
      maxPlayers = 4, status = Completed, currentPlayerIndex = 2, shotsPerPlayer = 1,
      rewardAmount = 7, created = 100, lastActivity = 109\<rparr>)]"
  by (simp add: played_def last_shot_eq nextTurn_def nextTurn_room_def
      next_player_loop.simps Let_def)

lemma scored_eq:
  "updatePlayerScore 104 ''R1'' ''H'' 5 started = (True, [(''R1'',
     \<lparr>room_id = ''R1'', room_name = ''Room'', hostId = ''H'',
      players = [\<lparr>player_id = ''H'', player_name = ''Hana'', walletAddress = ''GH'',
                  score = 5, shotsRemaining = 0, isConnected = True, isCurrentTurn = True\<rparr>,
                 \<lparr>player_id = ''P'', player_name = ''Pia'', walletAddress = ''GP'',
                  score = 0, shotsRemaining = 1, isConnected = True, isCurrentTurn = False\<rparr>,
                 \<lparr>player_id = ''Q'', player_name = ''Quinn'', walletAddress = ''GQ'',
                  score = 0, shotsRemaining = 1, isConnected = True, isCurrentTurn = False\<rparr>],
      maxPlayers = 4, status = Playing, currentPlayerIndex = 0, shotsPerPlayer = 1,
      rewardAmount = 7, created = 100, lastActivity = 104\<rparr>)])"
  by (simp add: started_eq updatePlayerScore_def Let_def)

lemmas example_defs =
  pia_def quinn_def lobby1_def lobby2_def lobby3_def createRoom_def addPlayerToRoom_def Let_def

subsection \<open>The example games, evaluated\<close>

lemma run_append: "run (cs @ ds) st = run ds (run cs st)"
  by (induction cs arbitrary: st) auto

lemma allowed_append: "allowed g (cs @ ds) st = (allowed g cs st \<and> allowed g ds (run cs st))"
  by (induction cs arbitrary: st) auto

lemma warm_up_run: "run warm_up [] = started"
  by (simp add: warm_up_def started_def lobby3_def lobby2_def lobby1_def)

lemma warm_up_allowed: "allowed has_shot_left warm_up []" "allowed by_the_rules warm_up []"
  by (simp_all add: warm_up_def)

lemmas play_defs =
  updatePlayerScore_def nextTurn_def nextTurn_room_def next_player_loop.simps
  removePlayerFromRoom_def detach_player_def resetGame_def removeRoom_def
  updatePlayerInRoom_def updateRoom_def spread_def Let_def

lemma mid_game_run:
  "run mid_game [] = [(''R1'',
     \<lparr>room_id = ''R1'', room_name = ''Room'', hostId = ''H'',
      players = [\<lparr>player_id = ''H'', player_name = ''Hana'', walletAddress = ''GH'',
                  score = 5, shotsRemaining = 0, isConnected = True, isCurrentTurn = False\<rparr>,
                 \<lparr>player_id = ''P'', player_name = ''Pia'', walletAddress = ''GP'',
                  score = 0, shotsRemaining = 1, isConnected = False, isCurrentTurn = False\<rparr>,
                 \<lparr>player_id = ''Q'', player_name = ''Quinn'', walletAddress = ''GQ'',
                  score = 0, shotsRemaining = 1, isConnected = True, isCurrentTurn = True\<rparr>],
      maxPlayers = 4, status = Playing, currentPlayerIndex = 2, shotsPerPlayer = 1,
      rewardAmount = 7, created = 100, lastActivity = 106\<rparr>)]"
  by (simp add: mid_game_def run_append warm_up_run started_eq play_defs)

lemma mid_game_allowed: "allowed has_shot_left mid_game []" "allowed by_the_rules mid_game []"
  by (simp_all add: mid_game_def allowed_append warm_up_allowed warm_up_run started_eq play_defs)

lemma fair_game_allowed: "allowed has_shot_left fair_game []"
  by (simp add: fair_game_def allowed_append mid_game_allowed mid_game_run play_defs)

subsection \<open>updatePlayerScore: rejected calls\<close>

text \<open>
  Claim C7. \<open>updatePlayerScore\<close> called for a room id that is not in the store, for a
  player id that no player of the room has, or for a player whose \<open>isCurrentTurn\<close> is
  false returns \<open>false\<close> and leaves the whole store as it was: no score, no
  \<open>shotsRemaining\<close> and no room field, \<open>lastActivity\<close> included, changes.
\<close>

theorem updatePlayerScore_rejects:
  assumes "case map_of st roomId of
             None \<Rightarrow> True
           | Some room \<Rightarrow>
               (case find (\<lambda>p. player_id p = playerId) (players room) of
                  None \<Rightarrow> True
                | Some player \<Rightarrow> \<not> isCurrentTurn player)"
  shows "updatePlayerScore now roomId playerId s st = (False, st)"
  using assms
  by (auto simp: updatePlayerScore_def Let_def findIndex_find split: option.splits)

text \<open>The three rejections on the example stores: an unknown room, an unknown player,
  and Pia, who has joined but does not hold the turn.\<close>

theorem updatePlayerScore_rejects_witness:
  "updatePlayerScore 5 ''R2'' ''H'' 3 lobby1 = (False, lobby1) \<and>
   updatePlayerScore 5 ''R1'' ''P'' 3 lobby1 = (False, lobby1) \<and>
   updatePlayerScore 5 ''R1'' ''P'' 3 lobby2 = (False, lobby2)"
proof -
  have a: "updatePlayerScore 5 ''R2'' ''H'' 3 lobby1 = (False, lobby1)"
    by (rule updatePlayerScore_rejects) (simp add: example_defs)
  have b: "updatePlayerScore 5 ''R1'' ''P'' 3 lobby1 = (False, lobby1)"
    by (rule updatePlayerScore_rejects) (simp add: example_defs)
  have c: "updatePlayerScore 5 ''R1'' ''P'' 3 lobby2 = (False, lobby2)"
    by (rule updatePlayerScore_rejects) (simp add: example_defs)
  from a b c show ?thesis by simp
qed

subsection \<open>updatePlayerScore: accepted calls\<close>

lemma updatePlayerScore_accepts:
  assumes room: "map_of st roomId = Some room"
    and idx: "findIndex (\<lambda>p. player_id p = playerId) (players room) = Some i"
    and turn: "isCurrentTurn (players room ! i)"
  shows "updatePlayerScore now roomId playerId s st =
           (True, AList.update roomId
              (room\<lparr>players := (players room)[i := (players room ! i)
                        \<lparr>score := score (players room ! i) + s,
                         shotsRemaining := shotsRemaining (players room ! i) - 1\<rparr>],
                     lastActivity := now\<rparr>) st)"
  using assms by (simp add: updatePlayerScore_def Let_def)

lemma updatePlayerScore_True_cases:
  assumes "updatePlayerScore now roomId playerId s st = (True, st')"
  obtains room i where "map_of st roomId = Some room"
    "findIndex (\<lambda>p. player_id p = playerId) (players room) = Some i"
    "isCurrentTurn (players room ! i)"
  using assms
  by (auto simp: updatePlayerScore_def Let_def split: option.splits if_splits)


text \<open>
  Claim C6. Whenever \<open>updatePlayerScore roomId playerId s\<close> succeeds, the player it
  names (the first of the room with that id) has its score raised by exactly \<open>s\<close> and
  its \<open>shotsRemaining\<close> lowered by exactly 1; every other player of the room is
  unchanged, and the turn is not advanced: \<open>currentPlayerIndex\<close> and every player's
  \<open>isCurrentTurn\<close> are as before. The status and all other rooms are unchanged too.
\<close>

theorem updatePlayerScore_effect:
  assumes ok: "updatePlayerScore now roomId playerId s st = (True, st')"
  shows "\<exists>room room' i.
           map_of st roomId = Some room \<and> map_of st' roomId = Some room' \<and>
           i < length (players room) \<and>
           find (\<lambda>p. player_id p = playerId) (players room) = Some (players room ! i) \<and>
           length (players room') = length (players room) \<and>
           players room' ! i = (players room ! i)
              \<lparr>score := score (players room ! i) + s,
               shotsRemaining := shotsRemaining (players room ! i) - 1\<rparr> \<and>
           (\<forall>j < length (players room). j \<noteq> i \<longrightarrow> players room' ! j = players room ! j) \<and>
           currentPlayerIndex room' = currentPlayerIndex room \<and>
           map isCurrentTurn (players room') = map isCurrentTurn (players room) \<and>
           status room' = status room \<and>
           (\<forall>other. other \<noteq> roomId \<longrightarrow> map_of st' other = map_of st other)"
proof -
  from ok obtain room i where room: "map_of st roomId = Some room"
    and idx: "findIndex (\<lambda>p. player_id p = playerId) (players room) = Some i"
    and turn: "isCurrentTurn (players room ! i)"
    by (rule updatePlayerScore_True_cases)
  let ?p = "players room ! i"
  let ?room' = "room\<lparr>players := (players room)[i := ?p
                        \<lparr>score := score ?p + s, shotsRemaining := shotsRemaining ?p - 1\<rparr>],
                     lastActivity := now\<rparr>"
  from updatePlayerScore_accepts [OF room idx turn, of now s] ok
  have st': "st' = AList.update roomId ?room' st" by simp
  from findIndex_Some [OF idx] have i: "i < length (players room)" by simp
  have flags: "map isCurrentTurn (players ?room') = map isCurrentTurn (players room)"
    using i by (simp add: map_update list_update_same_conv)
  have found: "find (\<lambda>p. player_id p = playerId) (players room) = Some ?p"
    using idx by (simp add: findIndex_find)
  have m1: "map_of st' roomId = Some ?room'"
    by (simp add: st' update_conv')
  have m2: "\<forall>other. other \<noteq> roomId \<longrightarrow> map_of st' other = map_of st other"
    by (simp add: st' update_conv')
  show ?thesis
    apply (rule exI [of _ room], rule exI [of _ ?room'], rule exI [of _ i])
    using m1 m2 room i flags found by simp
qed

text \<open>Hana's first shot in the running game of room \<open>R1\<close>.\<close>

theorem updatePlayerScore_effect_witness:
  "fst (updatePlayerScore 104 ''R1'' ''H'' 5 started) = True \<and>
   (\<exists>room room' i.
           map_of started ''R1'' = Some room \<and>
           map_of (snd (updatePlayerScore 104 ''R1'' ''H'' 5 started)) ''R1'' = Some room' \<and>
           i < length (players room) \<and>
           find (\<lambda>p. player_id p = ''H'') (players room) = Some (players room ! i) \<and>
           length (players room') = length (players room) \<and>
           players room' ! i = (players room ! i)
              \<lparr>score := score (players room ! i) + 5,
               shotsRemaining := shotsRemaining (players room ! i) - 1\<rparr> \<and>
           (\<forall>j < length (players room). j \<noteq> i \<longrightarrow> players room' ! j = players room ! j) \<and>
           currentPlayerIndex room' = currentPlayerIndex room \<and>
           map isCurrentTurn (players room') = map isCurrentTurn (players room) \<and>
           status room' = status room \<and>
           (\<forall>other. other \<noteq> ''R1'' \<longrightarrow>
              map_of (snd (updatePlayerScore 104 ''R1'' ''H'' 5 started)) other
                = map_of started other))"
proof -
  have ok: "updatePlayerScore 104 ''R1'' ''H'' 5 started
              = (True, snd (updatePlayerScore 104 ''R1'' ''H'' 5 started))"
    by (simp add: scored_eq)
  have ret: "fst (updatePlayerScore 104 ''R1'' ''H'' 5 started) = True"
    by (simp add: scored_eq)
  show ?thesis by (rule conjI [OF ret updatePlayerScore_effect [OF ok]])
qed

lemma findIndex_update:
  "findIndex P xs = Some i \<Longrightarrow> P y \<Longrightarrow> findIndex P (xs[i := y]) = Some i"
proof (induction xs arbitrary: i)
  case Nil
  then show ?case by simp
next
  case (Cons x xs)
  then show ?case by (cases "P x") auto
qed

text \<open>
  Claim C10. \<open>updatePlayerScore\<close> asks nothing of the room's status: in every room of
  the store, whatever its status, a call for a player who exists and holds
  \<open>isCurrentTurn\<close> succeeds and changes score and \<open>shotsRemaining\<close>, and since the
  player still holds the turn afterwards, any number \<open>n\<close> of such calls in a row all
  succeed, taking \<open>shotsRemaining\<close> down by \<open>n\<close>.
\<close>

theorem updatePlayerScore_ignores_status:
  assumes "map_of st roomId = Some room"
    and "find (\<lambda>p. player_id p = playerId) (players room) = Some player"
    and "isCurrentTurn player"
  shows "\<exists>room'.
           fst (updatePlayerScore_times n now roomId playerId s st) = True \<and>
           map_of (snd (updatePlayerScore_times n now roomId playerId s st)) roomId
             = Some room' \<and>
           status room' = status room \<and>
           find (\<lambda>p. player_id p = playerId) (players room') =
             Some (player\<lparr>score := score player + int n * s,
                          shotsRemaining := shotsRemaining player - int n\<rparr>)"
  using assms
proof (induction n arbitrary: st room player)
  case 0
  then show ?case by simp
next
  case (Suc n)
  from Suc.prems(2) obtain i where i: "findIndex (\<lambda>p. player_id p = playerId) (players room) = Some i"
    and p: "players room ! i = player"
    by (auto dest: find_findIndex)
  let ?p1 = "player\<lparr>score := score player + s, shotsRemaining := shotsRemaining player - 1\<rparr>"
  let ?room1 = "room\<lparr>players := (players room)[i := ?p1], lastActivity := now\<rparr>"
  let ?st1 = "AList.update roomId ?room1 st"
  from Suc.prems(1,3) i p
  have call: "updatePlayerScore now roomId playerId s st = (True, ?st1)"
    using updatePlayerScore_accepts [of st roomId room playerId i now s] by simp
  from findIndex_Some [OF i] p have pid: "player_id player = playerId" and il: "i < length (players room)"
    by auto
  have i1: "findIndex (\<lambda>p. player_id p = playerId) (players ?room1) = Some i"
    using findIndex_update [OF i, of ?p1] pid by simp
  have f1: "find (\<lambda>p. player_id p = playerId) (players ?room1) = Some ?p1"
    using i1 il by (simp add: findIndex_find)
  have m1: "map_of ?st1 roomId = Some ?room1" by (simp add: update_conv')
  have t1: "isCurrentTurn ?p1" using Suc.prems(3) by simp
  from Suc.IH [OF m1 f1 t1] obtain room' where
    r: "fst (updatePlayerScore_times n now roomId playerId s ?st1) = True"
       "map_of (snd (updatePlayerScore_times n now roomId playerId s ?st1)) roomId = Some room'"
       "status room' = status ?room1"
       "find (\<lambda>p. player_id p = playerId) (players room') =
          Some (?p1\<lparr>score := score ?p1 + int n * s, shotsRemaining := shotsRemaining ?p1 - int n\<rparr>)"
    by blast
  have eq: "?p1\<lparr>score := score ?p1 + int n * s, shotsRemaining := shotsRemaining ?p1 - int n\<rparr>
        = player\<lparr>score := score player + int (Suc n) * s,
                 shotsRemaining := shotsRemaining player - int (Suc n)\<rparr>"
    by (simp add: algebra_simps)
  show ?case
    apply (rule exI [of _ room'])
    using r eq call by simp
qed

text \<open>The host of a room that has only just been created, still \<open>waiting\<close>, submits two
  scores in a row although the room hands out one shot; and so does Quinn after the
  game has ended, in the \<open>completed\<close> room.\<close>

theorem updatePlayerScore_ignores_status_witness:
  "updatePlayerScore_times 2 110 ''R1'' ''H'' 4 lobby1 =
     (True, [(''R1'',
       \<lparr>room_id = ''R1'', room_name = ''Room'', hostId = ''H'',
        players = [\<lparr>player_id = ''H'', player_name = ''Hana'', walletAddress = ''GH'',
                    score = 8, shotsRemaining = - 1, isConnected = True,
                    isCurrentTurn = True\<rparr>],
        maxPlayers = 4, status = Waiting, currentPlayerIndex = 0, shotsPerPlayer = 1,
        rewardAmount = 7, created = 100, lastActivity = 110\<rparr>)]) \<and>
   (\<exists>room'. fst (updatePlayerScore_times 2 110 ''R1'' ''Q'' 4 (played 1 2 3)) = True \<and>
      map_of (snd (updatePlayerScore_times 2 110 ''R1'' ''Q'' 4 (played 1 2 3))) ''R1''
        = Some room' \<and>
      status room' = Completed \<and>
      find (\<lambda>p. player_id p = ''Q'') (players room') =
        Some \<lparr>player_id = ''Q'', player_name = ''Quinn'', walletAddress = ''GQ'',
              score = 11, shotsRemaining = - 2, isConnected = True, isCurrentTurn = True\<rparr>)"
proof -
  have a: "updatePlayerScore_times 2 110 ''R1'' ''H'' 4 lobby1 =
     (True, [(''R1'',
       \<lparr>room_id = ''R1'', room_name = ''Room'', hostId = ''H'',
        players = [\<lparr>player_id = ''H'', player_name = ''Hana'', walletAddress = ''GH'',
                    score = 8, shotsRemaining = - 1, isConnected = True,
                    isCurrentTurn = True\<rparr>],
        maxPlayers = 4, status = Waiting, currentPlayerIndex = 0, shotsPerPlayer = 1,
        rewardAmount = 7, created = 100, lastActivity = 110\<rparr>)])"
    by (simp add: numeral_2_eq_2 lobby1_eq updatePlayerScore_def Let_def)
  have m: "map_of (played 1 2 3) ''R1'' = Some (snd (hd (played 1 2 3)))"
    by (simp add: played_eq)
  have f: "find (\<lambda>p. player_id p = ''Q'') (players (snd (hd (played 1 2 3)))) =
      Some \<lparr>player_id = ''Q'', player_name = ''Quinn'', walletAddress = ''GQ'',
            score = 3, shotsRemaining = 0, isConnected = True, isCurrentTurn = True\<rparr>"
    by (simp add: played_eq)
  have "status (snd (hd (played 1 2 3))) = Completed"
    by (simp add: played_eq)
  with updatePlayerScore_ignores_status [OF m f, of 2 110 4] a show ?thesis by simp
qed


subsection \<open>resetGame\<close>

lemma resetGame_empty:
  assumes "map_of st roomId = Some room" "players room = []"
  shows "resetGame now roomId st =
      (Throws, AList.update roomId (room\<lparr>players := [], status := Waiting, currentPlayerIndex := 0,
                   lastActivity := lastActivity room\<rparr>) st)"
  using assms by (simp add: resetGame_def)

lemma resetGame_nonempty:
  assumes "map_of st roomId = Some room" "players room = p0 # rest"
  shows "resetGame now roomId st =
      (Returns True, AList.update roomId (room\<lparr>players := p0\<lparr>score := 0, shotsRemaining := shotsPerPlayer room, isCurrentTurn := True\<rparr>
       # map (\<lambda>p. p\<lparr>score := 0, shotsRemaining := shotsPerPlayer room,
                       isCurrentTurn := False\<rparr>) rest, status := Waiting, currentPlayerIndex := 0,
                   lastActivity := now\<rparr>) st)"
  using assms by (cases room) (simp add: resetGame_def Let_def comp_def)

lemma resetGame_players:
  "p0\<lparr>score := 0, shotsRemaining := n, isCurrentTurn := True\<rparr>
     # map (\<lambda>p. p\<lparr>score := 0, shotsRemaining := n, isCurrentTurn := False\<rparr>) rest
   = map (\<lambda>k. ((p0 # rest) ! k)\<lparr>score := 0, shotsRemaining := n, isCurrentTurn := (k = 0)\<rparr>)
       [0 ..< length (p0 # rest)]"
proof (rule nth_equalityI)
  show "length (p0\<lparr>score := 0, shotsRemaining := n, isCurrentTurn := True\<rparr>
     # map (\<lambda>p. p\<lparr>score := 0, shotsRemaining := n, isCurrentTurn := False\<rparr>) rest) =
    length (map (\<lambda>k. ((p0 # rest) ! k)\<lparr>score := 0, shotsRemaining := n, isCurrentTurn := (k = 0)\<rparr>)
       [0 ..< length (p0 # rest)])"
    by simp
next
  fix i
  assume "i < length (p0\<lparr>score := 0, shotsRemaining := n, isCurrentTurn := True\<rparr>
     # map (\<lambda>p. p\<lparr>score := 0, shotsRemaining := n, isCurrentTurn := False\<rparr>) rest)"
  then have i: "i < Suc (length rest)" by simp
  show "(p0\<lparr>score := 0, shotsRemaining := n, isCurrentTurn := True\<rparr>
     # map (\<lambda>p. p\<lparr>score := 0, shotsRemaining := n, isCurrentTurn := False\<rparr>) rest) ! i =
    map (\<lambda>k. ((p0 # rest) ! k)\<lparr>score := 0, shotsRemaining := n, isCurrentTurn := (k = 0)\<rparr>)
       [0 ..< length (p0 # rest)] ! i"
  proof (cases i)
    case 0
    then show ?thesis by (simp del: upt_Suc)
  next
    case (Suc k)
    with i have "k < length rest" by simp
    with Suc show ?thesis by (simp del: upt_Suc)
  qed
qed

text \<open>
  Claim C9. \<open>resetGame\<close> on any room of the store sets every player's score to 0 and
  \<open>shotsRemaining\<close> to the room's \<open>shotsPerPlayer\<close>, sets the status to \<open>waiting\<close> and
  \<open>currentPlayerIndex\<close> to 0, and leaves \<open>isCurrentTurn\<close> true for the player at
  index 0 and false for all others. The players are the room's own, in their order and
  otherwise as they were; the room is otherwise as it was, but for \<open>lastActivity\<close>; no
  other room changes. (With at least one player the call returns \<open>true\<close> and
  \<open>lastActivity\<close> is the time of the call.)
\<close>

theorem resetGame_restores:
  assumes "map_of st roomId = Some room"
  shows "\<exists>room'.
           map_of (snd (resetGame now roomId st)) roomId = Some room' \<and>
           players room' =
             map (\<lambda>k. (players room ! k)\<lparr>score := 0, shotsRemaining := shotsPerPlayer room,
                                          isCurrentTurn := (k = 0)\<rparr>)
               [0 ..< length (players room)] \<and>
           room' = room\<lparr>players := players room', status := Waiting, currentPlayerIndex := 0,
                         lastActivity := lastActivity room'\<rparr> \<and>
           (\<forall>other. other \<noteq> roomId \<longrightarrow>
              map_of (snd (resetGame now roomId st)) other = map_of st other) \<and>
           length (players room') = length (players room) \<and>
           (\<forall>p \<in> set (players room').
              score p = 0 \<and> shotsRemaining p = shotsPerPlayer room) \<and>
           shotsPerPlayer room' = shotsPerPlayer room \<and>
           status room' = Waiting \<and>
           currentPlayerIndex room' = 0 \<and>
           (\<forall>j < length (players room'). isCurrentTurn (players room' ! j) = (j = 0)) \<and>
           (players room \<noteq> [] \<longrightarrow>
              fst (resetGame now roomId st) = Returns True \<and> lastActivity room' = now)"
proof -
  define ps' where "ps' =
     map (\<lambda>k. (players room ! k)\<lparr>score := 0, shotsRemaining := shotsPerPlayer room,
                                  isCurrentTurn := (k = 0)\<rparr>) [0 ..< length (players room)]"
  define la where "la = (if players room = [] then lastActivity room else now)"
  define room' where
    "room' = room\<lparr>players := ps', status := Waiting, currentPlayerIndex := 0,
                   lastActivity := la\<rparr>"
  have res: "resetGame now roomId st =
      (if players room = [] then Throws else Returns True, AList.update roomId room' st)"
  proof (cases "players room")
    case Nil
    then have "ps' = []" by (simp add: ps'_def)
    with Nil resetGame_empty [OF assms Nil, of now] show ?thesis
      by (simp add: room'_def la_def)
  next
    case (Cons p0 rest)
    have "ps' = p0\<lparr>score := 0, shotsRemaining := shotsPerPlayer room, isCurrentTurn := True\<rparr>
       # map (\<lambda>p. p\<lparr>score := 0, shotsRemaining := shotsPerPlayer room,
                       isCurrentTurn := False\<rparr>) rest"
      unfolding ps'_def Cons by (rule resetGame_players [symmetric])
    with Cons resetGame_nonempty [OF assms Cons, of now] show ?thesis
      by (simp add: room'_def la_def)
  qed
  have len: "length ps' = length (players room)" by (simp add: ps'_def)
  have nth: "ps' ! j = (players room ! j)\<lparr>score := 0, shotsRemaining := shotsPerPlayer room,
                                  isCurrentTurn := (j = 0)\<rparr>" if "j < length (players room)" for j
    using that by (simp add: ps'_def)
  have all: "\<forall>p \<in> set ps'. score p = 0 \<and> shotsRemaining p = shotsPerPlayer room"
    by (auto simp: ps'_def)
  have fields: "players room' = ps'" "status room' = Waiting" "currentPlayerIndex room' = 0"
    "shotsPerPlayer room' = shotsPerPlayer room" "lastActivity room' = la"
    by (simp_all add: room'_def)
  have same: "room' = room\<lparr>players := players room', status := Waiting, currentPlayerIndex := 0,
                         lastActivity := lastActivity room'\<rparr>"
    by (simp add: room'_def)
  have m: "map_of (snd (resetGame now roomId st)) roomId = Some room'"
    and others: "\<forall>other. other \<noteq> roomId \<longrightarrow>
              map_of (snd (resetGame now roomId st)) other = map_of st other"
    by (simp_all add: res update_conv')
  have ret: "players room \<noteq> [] \<longrightarrow>
              fst (resetGame now roomId st) = Returns True \<and> lastActivity room' = now"
    by (simp add: res fields la_def)
  have p: "players room' =
             map (\<lambda>k. (players room ! k)\<lparr>score := 0, shotsRemaining := shotsPerPlayer room,
                                          isCurrentTurn := (k = 0)\<rparr>)
               [0 ..< length (players room)]"
    by (simp only: fields ps'_def)
  have flags: "\<forall>j < length (players room'). isCurrentTurn (players room' ! j) = (j = 0)"
    by (simp add: fields len nth)
  from all have all': "\<forall>p \<in> set (players room').
              score p = 0 \<and> shotsRemaining p = shotsPerPlayer room"
    by (simp only: fields)
  from len have len': "length (players room') = length (players room)"
    by (simp only: fields)
  show ?thesis
    apply (rule exI [of _ room'])
    apply (intro conjI)
    apply (rule m, rule p, rule same, rule others, rule len', rule all', rule fields(4),
        rule fields(2), rule fields(3), rule flags, rule ret)
    done
qed

text \<open>The reset of the finished game of room \<open>R1\<close>.\<close>

theorem resetGame_restores_witness:
  "map_of (played 1 2 3) ''R1'' = Some (snd (hd (played 1 2 3))) \<and>
   resetGame 111 ''R1'' (played 1 2 3) =
     (Returns True, [(''R1'',
       \<lparr>room_id = ''R1'', room_name = ''Room'', hostId = ''H'',
        players = [\<lparr>player_id = ''H'', player_name = ''Hana'', walletAddress = ''GH'',
                    score = 0, shotsRemaining = 1, isConnected = True, isCurrentTurn = True\<rparr>,
                   \<lparr>player_id = ''P'', player_name = ''Pia'', walletAddress = ''GP'',
                    score = 0, shotsRemaining = 1, isConnected = True, isCurrentTurn = False\<rparr>,
                   \<lparr>player_id = ''Q'', player_name = ''Quinn'', walletAddress = ''GQ'',
                    score = 0, shotsRemaining = 1, isConnected = True, isCurrentTurn = False\<rparr>],
        maxPlayers = 4, status = Waiting, currentPlayerIndex = 0, shotsPerPlayer = 1,
        rewardAmount = 7, created = 100, lastActivity = 111\<rparr>)]) \<and>
   (\<exists>room'.
      map_of (snd (resetGame 111 ''R1'' (played 1 2 3))) ''R1'' = Some room' \<and>
      map player_id (players room') = [''H'', ''P'', ''Q''] \<and>
      (\<forall>p \<in> set (players room'). score p = 0 \<and> shotsRemaining p = 1) \<and>
      shotsPerPlayer room' = 1 \<and>
      status room' = Waiting \<and>
      currentPlayerIndex room' = 0 \<and>
      (\<forall>j < length (players room'). isCurrentTurn (players room' ! j) = (j = 0)) \<and>
      fst (resetGame 111 ''R1'' (played 1 2 3)) = Returns True)"
proof -
  have m: "map_of (played 1 2 3) ''R1'' = Some (snd (hd (played 1 2 3)))"
    by (simp add: played_eq)
  have r: "resetGame 111 ''R1'' (played 1 2 3) =
     (Returns True, [(''R1'',
       \<lparr>room_id = ''R1'', room_name = ''Room'', hostId = ''H'',
        players = [\<lparr>player_id = ''H'', player_name = ''Hana'', walletAddress = ''GH'',
                    score = 0, shotsRemaining = 1, isConnected = True, isCurrentTurn = True\<rparr>,
                   \<lparr>player_id = ''P'', player_name = ''Pia'', walletAddress = ''GP'',
                    score = 0, shotsRemaining = 1, isConnected = True, isCurrentTurn = False\<rparr>,
                   \<lparr>player_id = ''Q'', player_name = ''Quinn'', walletAddress = ''GQ'',
                    score = 0, shotsRemaining = 1, isConnected = True, isCurrentTurn = False\<rparr>],
        maxPlayers = 4, status = Waiting, currentPlayerIndex = 0, shotsPerPlayer = 1,
        rewardAmount = 7, created = 100, lastActivity = 111\<rparr>)])"
    by (simp add: played_eq resetGame_def)
  have f: "players (snd (hd (played 1 2 3))) \<noteq> []"
    "shotsPerPlayer (snd (hd (played 1 2 3))) = 1"
    by (simp_all add: played_eq)
  from resetGame_restores [OF m, of 111] obtain room' where
    a: "map_of (snd (resetGame 111 ''R1'' (played 1 2 3))) ''R1'' = Some room'"
    and b: "\<forall>p \<in> set (players room').
              score p = 0 \<and> shotsRemaining p = shotsPerPlayer (snd (hd (played 1 2 3)))"
      "shotsPerPlayer room' = shotsPerPlayer (snd (hd (played 1 2 3)))"
      "status room' = Waiting" "currentPlayerIndex room' = 0"
      "\<forall>j < length (players room'). isCurrentTurn (players room' ! j) = (j = 0)"
    and c: "players (snd (hd (played 1 2 3))) \<noteq> [] \<longrightarrow>
              fst (resetGame 111 ''R1'' (played 1 2 3)) = Returns True \<and> lastActivity room' = 111"
    by blast
  from a r have ids: "map player_id (players room') = [''H'', ''P'', ''Q'']" by auto
  from a b c f ids have "\<exists>room'.
      map_of (snd (resetGame 111 ''R1'' (played 1 2 3))) ''R1'' = Some room' \<and>
      map player_id (players room') = [''H'', ''P'', ''Q''] \<and>
      (\<forall>p \<in> set (players room'). score p = 0 \<and> shotsRemaining p = 1) \<and>
      shotsPerPlayer room' = 1 \<and>
      status room' = Waiting \<and>
      currentPlayerIndex room' = 0 \<and>
      (\<forall>j < length (players room'). isCurrentTurn (players room' ! j) = (j = 0)) \<and>
      fst (resetGame 111 ''R1'' (played 1 2 3)) = Returns True"
    by (intro exI [of _ room']) simp
  with m r show ?thesis by blast
qed

subsection \<open>getWinner\<close>

lemma first_with_max_score_Cons:
  "first_with_max_score (p # ps) =
     (if \<forall>q \<in> set ps. score q \<le> score p then Some p else first_with_max_score ps)"
proof (cases "\<forall>q \<in> set ps. score q \<le> score p")
  case True
  then have "Max (score ` set (p # ps)) = score p"
    by (intro Max_eqI) auto
  with True show ?thesis by (simp add: first_with_max_score_def)
next
  case False
  then obtain q where q: "q \<in> set ps" "score p < score q" by force
  then have ne: "set ps \<noteq> {}" by auto
  have "score q \<le> Max (score ` set ps)" using q by simp
  with q have lt: "score p < Max (score ` set ps)" by linarith
  then have "Max (score ` set (p # ps)) = Max (score ` set ps)"
    using ne by (simp add: max_def)
  then have "first_with_max_score (p # ps) = first_with_max_score ps"
    using lt by (simp add: first_with_max_score_def)
  with False show ?thesis by metis
qed

lemma winner_loop_spec:
  "winner = None \<longrightarrow> highest \<le> 0 \<Longrightarrow>
   winner_loop ps highest winner =
     (if \<exists>p \<in> set ps. highest < score p then first_with_max_score ps else winner)"
proof (induction ps arbitrary: highest winner)
  case Nil
  show ?case by simp
next
  case (Cons p ps)
  show ?case
  proof (cases "highest < score p")
    case True
    have "winner_loop (p # ps) highest winner = winner_loop ps (score p) (Some p)"
      using True by simp
    also have "\<dots> = (if \<exists>q \<in> set ps. score p < score q then first_with_max_score ps else Some p)"
      by (rule Cons.IH) simp
    also have "\<dots> = first_with_max_score (p # ps)"
      by (auto simp: first_with_max_score_Cons not_le)
    finally show ?thesis using True by simp
  next
    case False
    have "winner_loop (p # ps) highest winner = winner_loop ps highest winner"
      using False Cons.prems by (auto split: option.splits)
    also have "\<dots> = (if \<exists>q \<in> set ps. highest < score q then first_with_max_score ps else winner)"
      by (rule Cons.IH) (rule Cons.prems)
    finally show ?thesis using False
      by (auto simp: first_with_max_score_Cons not_le)
  qed
qed

text \<open>
  Claim C1, as the code has it. \<open>getWinner\<close> returns no winner unless the room exists
  and its status is \<open>completed\<close>. For a completed room in which some player has a
  score above \<open>-1\<close>, the value \<open>highestScore\<close> starts with, the winner is the player
  with the maximum score, and on a tie the first player in list order with that maximum;
  this includes a maximum of 0, where the first player with score 0 wins. There is no
  winner only if the room has no players or no score is above \<open>-1\<close>.
\<close>

theorem getWinner_first_with_max_score:
  "getWinner roomId st =
     (case map_of st roomId of
        None \<Rightarrow> None
      | Some room \<Rightarrow>
          if status room = Completed \<and> (\<exists>p \<in> set (players room). - 1 < score p)
          then first_with_max_score (players room)
          else None)"
  by (simp add: getWinner_def winner_loop_spec split: option.splits)

text \<open>The tie of the specification (30, 30, 10) goes to the first player; a running
  game, a waiting room and an unknown room have no winner.\<close>

theorem getWinner_first_with_max_score_witness:
  "getWinner ''R1'' (played 30 30 10) =
     Some \<lparr>player_id = ''H'', player_name = ''Hana'', walletAddress = ''GH'', score = 30,
           shotsRemaining = 0, isConnected = True, isCurrentTurn = False\<rparr> \<and>
   getWinner ''R1'' started = None \<and> getWinner ''R1'' lobby3 = None \<and>
   getWinner ''R2'' (played 30 30 10) = None"
  using getWinner_first_with_max_score [of "''R1''" "played 30 30 10"]
    getWinner_first_with_max_score [of "''R1''" started]
    getWinner_first_with_max_score [of "''R1''" lobby3]
    getWinner_first_with_max_score [of "''R2''" "played 30 30 10"]
  by (simp add: played_eq started_eq lobby3_eq first_with_max_score_def)

text \<open>The claim as stated fails where it says that a maximum score of 0 yields no winner:
  after a game in which all three players scored 0, \<open>getWinner\<close> returns Hana.\<close>

theorem getWinner_zero_counterexample:
  "map_of (played 0 0 0) ''R1'' = Some (snd (hd (played 0 0 0))) \<and>
   status (snd (hd (played 0 0 0))) = Completed \<and>
   Max (score ` set (players (snd (hd (played 0 0 0))))) = 0 \<and>
   getWinner ''R1'' (played 0 0 0) =
     Some \<lparr>player_id = ''H'', player_name = ''Hana'', walletAddress = ''GH'', score = 0,
           shotsRemaining = 0, isConnected = True, isCurrentTurn = False\<rparr>"
  by (simp add: played_eq getWinner_def)

subsection \<open>getActiveRooms\<close>

text \<open>
  Claim C2, as the code has it. \<open>getActiveRooms\<close> returns exactly the rooms whose
  status is \<open>waiting\<close>, plus those whose status is \<open>playing\<close> and whose
  \<open>lastActivity\<close> is less than 24 hours in the past (each as often as it is stored,
  which is once), sorted by \<open>created\<close> with the newest room first. A \<open>completed\<close> room
  is never returned.
\<close>

theorem getActiveRooms_spec:
  "set (getActiveRooms now st) = {room \<in> snd ` set st. isActive now room} \<and>
   mset (getActiveRooms now st) = filter_mset (isActive now) (mset (map snd st)) \<and>
   sorted_wrt (\<lambda>a b. created b \<le> created a) (getActiveRooms now st)"
proof -
  have "sorted (map (\<lambda>room. - created room) (getActiveRooms now st))"
    by (simp add: getActiveRooms_def)
  then have "sorted_wrt (\<lambda>a b. created b \<le> created a) (getActiveRooms now st)"
    by (simp add: sorted_map sorted_wrt_map)
  then show ?thesis
    by (auto simp: getActiveRooms_def)
qed

text \<open>The claim as stated also lists \<open>completed\<close> rooms with recent activity: the room of
  the game that ended at time 109 is not returned at time 110.\<close>

theorem getActiveRooms_completed_counterexample:
  "snd (hd (played 1 2 3)) \<in> snd ` set (played 1 2 3) \<and>
   listed_by_spec 110 (snd (hd (played 1 2 3))) \<and>
   snd (hd (played 1 2 3)) \<notin> set (getActiveRooms 110 (played 1 2 3))"
  by (simp add: played_eq listed_by_spec_def maxInactiveTime_def getActiveRooms_def isActive_def)

subsection \<open>removePlayerFromRoom outside a running game\<close>

lemma splice1_length: "i < length xs \<Longrightarrow> Suc (length (splice1 i xs)) = length xs"
  by (auto simp: splice1_def)

lemma splice1_mset: "i < length xs \<Longrightarrow> add_mset (xs ! i) (mset (splice1 i xs)) = mset xs"
proof -
  assume i: "i < length xs"
  have "mset xs = mset (take i xs @ drop i xs)" by simp
  also have "drop i xs = xs ! i # drop (Suc i) xs" using i by (simp add: Cons_nth_drop_Suc)
  finally show ?thesis by (simp add: splice1_def)
qed

lemma splice1_distinct_notin:
  assumes "i < length xs" "distinct (map f xs)"
  shows "f (xs ! i) \<notin> f ` set (splice1 i xs)"
proof -
  have "map f xs = map f (take i xs) @ f (xs ! i) # map f (drop (Suc i) xs)"
    using assms(1) by (metis id_take_nth_drop list.simps(9) map_append)
  with assms(2) have "distinct (map f (take i xs) @ f (xs ! i) # map f (drop (Suc i) xs))"
    by simp
  then show ?thesis by (auto simp: splice1_def)
qed

lemma find_None_list_all: "(find P xs = None) = list_all (\<lambda>x. \<not> P x) xs"
  by (induction xs) auto

text \<open>
  Claim C8. \<open>removePlayerFromRoom\<close> on a room whose status is not \<open>playing\<close> takes the
  named player (the first with the id, and with distinct ids the only one) out of the
  player list. If then no players remain or all remaining players are disconnected,
  the room is deleted from the store; otherwise the room stays, and if the player who
  left was the host, \<open>hostId\<close> becomes the id of the first remaining connected player
  in list order.
\<close>

theorem removePlayerFromRoom_not_playing:
  assumes room: "map_of st roomId = Some room"
    and status: "status room \<noteq> Playing"
    and idx: "findIndex (\<lambda>p. player_id p = playerId) (players room) = Some i"
  shows "Suc (length (splice1 i (players room))) = length (players room) \<and>
         add_mset (players room ! i) (mset (splice1 i (players room))) = mset (players room) \<and>
         player_id (players room ! i) = playerId \<and>
         (distinct (map player_id (players room)) \<longrightarrow>
            playerId \<notin> player_id ` set (splice1 i (players room))) \<and>
         (splice1 i (players room) = [] \<or>
          (\<forall>p \<in> set (splice1 i (players room)). \<not> isConnected p) \<longrightarrow>
            removePlayerFromRoom now roomId playerId st = (Returns True, AList.delete roomId st) \<and>
            map_of (AList.delete roomId st) roomId = None) \<and>
         (\<forall>q. find isConnected (splice1 i (players room)) = Some q \<longrightarrow>
            removePlayerFromRoom now roomId playerId st =
              (Returns True,
               AList.update roomId
                 (room\<lparr>players := splice1 i (players room),
                        hostId := (if playerId = hostId room then player_id q else hostId room),
                        lastActivity := now\<rparr>) st))"
proof -
  let ?rest = "splice1 i (players room)"
  from findIndex_Some [OF idx] have i: "i < length (players room)"
    and pid: "player_id (players room ! i) = playerId" by auto
  have detach: "detach_player now i room = (Returns True, room\<lparr>players := ?rest\<rparr>)"
    using status by (simp add: detach_player_def)
  have gone: "?rest = [] \<or> (\<forall>p \<in> set ?rest. \<not> isConnected p) \<Longrightarrow>
      removePlayerFromRoom now roomId playerId st = (Returns True, AList.delete roomId st)"
    using room idx detach
    by (auto simp: removePlayerFromRoom_def removeRoom_def list_all_iff)
  have stay: "removePlayerFromRoom now roomId playerId st =
              (Returns True,
               AList.update roomId
                 (room\<lparr>players := ?rest,
                        hostId := (if playerId = hostId room then player_id q else hostId room),
                        lastActivity := now\<rparr>) st)"
    if q: "find isConnected ?rest = Some q" for q
  proof -
    from q have ne: "?rest \<noteq> []" by auto
    from q have "\<not> list_all (\<lambda>p. \<not> isConnected p) ?rest"
      using find_None_list_all [of isConnected ?rest] by simp
    with ne q room idx detach show ?thesis
      by (simp add: removePlayerFromRoom_def Let_def)
  qed
  have del: "map_of (AList.delete roomId st) roomId = None"
    by (simp add: delete_conv')
  from splice1_distinct_notin [OF i, of player_id] pid
  have notin: "distinct (map player_id (players room)) \<longrightarrow> playerId \<notin> player_id ` set ?rest"
    by auto
  show ?thesis
    using splice1_length [OF i] splice1_mset [OF i] pid notin gone stay del by blast
qed

text \<open>Host Hana leaves the waiting room that holds her and Pia: Pia becomes the host and
  is the only player left. When Hana leaves the room she is alone in, the room goes.\<close>

theorem removePlayerFromRoom_not_playing_witness:
  "map_of lobby2 ''R1'' = Some (snd (hd lobby2)) \<and>
   status (snd (hd lobby2)) = Waiting \<and>
   hostId (snd (hd lobby2)) = ''H'' \<and>
   map player_id (players (snd (hd lobby2))) = [''H'', ''P''] \<and>
   removePlayerFromRoom 103 ''R1'' ''H'' lobby2 =
     (Returns True, [(''R1'',
       \<lparr>room_id = ''R1'', room_name = ''Room'', hostId = ''P'',
        players = [\<lparr>player_id = ''P'', player_name = ''Pia'', walletAddress = ''GP'',
                    score = 0, shotsRemaining = 1, isConnected = True,
                    isCurrentTurn = False\<rparr>],
        maxPlayers = 4, status = Waiting, currentPlayerIndex = 0, shotsPerPlayer = 1,
        rewardAmount = 7, created = 100, lastActivity = 103\<rparr>)]) \<and>
   removePlayerFromRoom 103 ''R1'' ''H'' lobby1 = (Returns True, [])"
proof -
  have m: "map_of lobby2 ''R1'' = Some (snd (hd lobby2))"
    and s: "status (snd (hd lobby2)) \<noteq> Playing"
    and i: "findIndex (\<lambda>p. player_id p = ''H'') (players (snd (hd lobby2))) = Some 0"
    by (simp_all add: lobby2_eq)
  have m1: "map_of lobby1 ''R1'' = Some (snd (hd lobby1))"
    and s1: "status (snd (hd lobby1)) \<noteq> Playing"
    and i1: "findIndex (\<lambda>p. player_id p = ''H'') (players (snd (hd lobby1))) = Some 0"
    by (simp_all add: lobby1_eq)
  from removePlayerFromRoom_not_playing [OF m s i, of 103]
    removePlayerFromRoom_not_playing [OF m1 s1 i1, of 103]
  show ?thesis
    by (simp add: lobby2_eq lobby1_eq splice1_def)
qed

subsection \<open>nextTurn\<close>

lemma find_append_cases:
  "find P (xs @ ys) = (case find P xs of None \<Rightarrow> find P ys | Some x \<Rightarrow> Some x)"
  by (induction xs) auto

lemma loop_step:
  assumes "ps \<noteq> []"
  shows "next_player_loop ps i c =
     (let idx = Suc i mod length ps; cnt = (if idx = 0 then c + 1 else c)
      in if 1 < cnt then Exhausted
         else if eligible (ps ! idx) then Found idx else next_player_loop ps idx cnt)"
  using assms
  by (subst next_player_loop.simps) (auto simp: Let_def eligible_def not_le not_less)









lemma hold_turn_code:
  assumes "j < length ps"
  shows "(map (\<lambda>p. p\<lparr>isCurrentTurn := False\<rparr>) ps)
           [j := (map (\<lambda>p. p\<lparr>isCurrentTurn := False\<rparr>) ps ! j)\<lparr>isCurrentTurn := True\<rparr>]
         = hold_turn j ps"
  using assms by (auto simp: hold_turn_def nth_list_update intro!: nth_equalityI)









subsection \<open>Properties of all rooms of the store\<close>

lemma every_room_update:
  "every_room P st \<Longrightarrow> P room \<Longrightarrow> every_room P (AList.update k room st)"
  by (induction st) (auto simp: every_room_def)

lemma every_room_delete: "every_room P st \<Longrightarrow> every_room P (AList.delete k st)"
  by (auto simp: every_room_def AList.delete_eq)

lemma every_room_lookup: "every_room P st \<Longrightarrow> map_of st k = Some room \<Longrightarrow> P room"
  by (force simp: every_room_def dest: map_of_SomeD)

lemma next_player_loop_Found:
  "next_player_loop ps i c = Found j \<Longrightarrow> j < length ps \<and> eligible (ps ! j)"
proof (induction ps i c rule: next_player_loop.induct)
  case (1 ps i c)
  show ?case
  proof (cases "ps = []")
    case True
    with "1.prems" show ?thesis
      by (simp add: next_player_loop.simps split: if_splits)
  next
    case False
    let ?idx = "Suc i mod length ps"
    let ?cnt = "if ?idx = 0 then c + 1 else c"
    from False have lt: "?idx < length ps" by simp
    from "1.prems" False have step:
      "(if 1 < ?cnt then Exhausted
        else if eligible (ps ! ?idx) then Found ?idx else next_player_loop ps ?idx ?cnt)
       = Found j"
      by (simp add: loop_step [OF False] Let_def)
    show ?thesis
    proof (cases "1 < ?cnt \<or> eligible (ps ! ?idx)")
      case True
      with step lt show ?thesis by (auto split: if_splits)
    next
      case stop: False
      with step have rec: "next_player_loop ps ?idx ?cnt = Found j" by (simp split: if_splits)
      from stop have "\<not> 1 < ?cnt" "shotsRemaining (ps ! ?idx) \<le> 0 \<or> \<not> isConnected (ps ! ?idx)"
        by (auto simp: eligible_def)
      with "1.IH" [of ?idx ?cnt] False rec show ?thesis
        by simp
    qed
  qed
qed

subsection \<open>What the methods do to one room\<close>

lemma length_hold_turn [simp]: "length (hold_turn j ps) = length ps"
  by (simp add: hold_turn_def)

lemma nth_hold_turn:
  "k < length ps \<Longrightarrow> hold_turn j ps ! k = (ps ! k)\<lparr>isCurrentTurn := (k = j)\<rparr>"
  by (simp add: hold_turn_def)

lemma shots_hold_turn: "map shotsRemaining (hold_turn j ps) = map shotsRemaining ps"
  by (rule nth_equalityI) (simp_all add: nth_hold_turn)

lemma filter_eq_upt: "filter (\<lambda>k. k = j) [0 ..< n] = (if j < n then [j] else [])"
  by (induction n) auto

lemma one_holder: "j < length ps \<Longrightarrow> length (filter isCurrentTurn (hold_turn j ps)) = 1"
proof -
  assume j: "j < length ps"
  have "filter isCurrentTurn (hold_turn j ps) =
          map (\<lambda>k. (ps ! k)\<lparr>isCurrentTurn := (k = j)\<rparr>) (filter (\<lambda>k. k = j) [0 ..< length ps])"
    by (simp add: hold_turn_def filter_map comp_def)
  with j show ?thesis by (simp add: filter_eq_upt)
qed

lemma nextTurn_room_forms:
  "snd (nextTurn_room now room) = room \<or>
   snd (nextTurn_room now room) = room\<lparr>status := Completed, lastActivity := now\<rparr> \<or>
   (\<exists>j s. j < length (players room) \<and>
      snd (nextTurn_room now room) =
        room\<lparr>players := hold_turn j (players room), currentPlayerIndex := j, status := s,
              lastActivity := now\<rparr>)"
proof (cases "status room = Playing")
  case False
  then show ?thesis by (simp add: nextTurn_room_def)
next
  case True
  show ?thesis
  proof (cases "next_player_loop (players room) (currentPlayerIndex room) 0")
    case (Found j)
    from next_player_loop_Found [OF Found] have j: "j < length (players room)" by simp
    from True Found hold_turn_code [OF j] j show ?thesis
      by (simp add: nextTurn_room_def Let_def) blast
  next
    case Exhausted
    with True show ?thesis by (simp add: nextTurn_room_def)
  next
    case ScanThrows
    with True show ?thesis by (simp add: nextTurn_room_def)
  qed
qed

lemma mark_first_turn_Suc:
  "mark_first_turn (Suc i) ps = map (\<lambda>p. p\<lparr>isCurrentTurn := False\<rparr>) ps"
  by (induction ps arbitrary: i) auto

lemma mark_first_turn_0: "mark_first_turn 0 ps = hold_turn 0 ps"
proof (cases ps)
  case Nil
  then show ?thesis by (simp add: hold_turn_def)
next
  case (Cons p rest)
  then show ?thesis
    by (auto simp: mark_first_turn_Suc nth_hold_turn nth_Cons intro!: nth_equalityI
        split: nat.splits)
qed

subsection \<open>Shot counters\<close>

lemma shots_in_range_alt:
  "shots_in_range room = (0 \<le> shotsPerPlayer room \<and> shots_ok (players room))"
  by (auto simp: shots_in_range_def shots_ok_def)

lemma shots_ok_update:
  "shots_ok ps \<Longrightarrow> 0 \<le> shotsRemaining p \<Longrightarrow> shots_ok (ps[i := p])"
  by (auto simp: shots_ok_def dest!: set_update_subset_insert [THEN subsetD])

lemma shots_ok_nth: "shots_ok ps \<Longrightarrow> i < length ps \<Longrightarrow> 0 \<le> shotsRemaining (ps ! i)"
  by (simp add: shots_ok_def)

lemma shots_ok_splice1: "shots_ok ps \<Longrightarrow> shots_ok (splice1 i ps)"
  by (auto simp: shots_ok_def splice1_def dest: in_set_takeD in_set_dropD)

lemma shots_ok_hold_turn: "shots_ok (hold_turn j ps) = shots_ok ps"
  by (simp add: shots_ok_def shots_hold_turn)

lemma shots_nextTurn_room:
  "shots_in_range room \<Longrightarrow> shots_in_range (snd (nextTurn_room now room))"
  using nextTurn_room_forms [of now room]
  by (auto simp: shots_in_range_alt shots_ok_hold_turn)

lemma shots_detach_player:
  assumes "shots_in_range room" "i < length (players room)"
  shows "shots_in_range (snd (detach_player now i room))"
proof -
  let ?room1 = "room\<lparr>players := (players room)[i := (players room ! i)\<lparr>isConnected := False\<rparr>]\<rparr>"
  have r1: "shots_in_range ?room1"
    using assms by (simp add: shots_in_range_alt shots_ok_update shots_ok_nth)
  have "snd (detach_player now i room) = ?room1 \<or>
        snd (detach_player now i room) = snd (nextTurn_room now ?room1) \<or>
        snd (detach_player now i room) = room\<lparr>players := splice1 i (players room)\<rparr>"
    by (auto simp: detach_player_def Let_def split: prod.splits outcome.splits)
  with r1 shots_nextTurn_room [OF r1, of now] assms(1) show ?thesis
    by (auto simp: shots_in_range_alt shots_ok_splice1)
qed

lemma shots_mark_first_turn: "shots_ok (mark_first_turn 0 ps) = shots_ok ps"
  by (simp add: mark_first_turn_0 shots_ok_hold_turn)

lemma shots_createRoom:
  "every_room shots_in_range st \<Longrightarrow> 0 \<le> shots \<Longrightarrow>
   every_room shots_in_range
     (snd (createRoom roomId host hostName wallet roomName maxP shots reward now st))"
  by (simp add: createRoom_def Let_def every_room_update shots_in_range_def)

lemma shots_addPlayerToRoom:
  assumes "every_room shots_in_range st"
  shows "every_room shots_in_range (snd (addPlayerToRoom now roomId player st))"
proof (cases "map_of st roomId")
  case None
  with assms show ?thesis by (simp add: addPlayerToRoom_def)
next
  case (Some room)
  from every_room_lookup [OF assms Some] have r: "shots_in_range room" .
  then have a: "shots_in_range (room\<lparr>players := (players room)[i :=
        player\<lparr>shotsRemaining := shotsPerPlayer room, isConnected := True\<rparr>],
      lastActivity := now\<rparr>)" for i
    by (simp add: shots_in_range_alt shots_ok_update)
  from r have b: "shots_in_range (room\<lparr>players := players room @
        [player\<lparr>score := 0, shotsRemaining := shotsPerPlayer room,
                isConnected := True, isCurrentTurn := False\<rparr>],
      lastActivity := now\<rparr>)"
    by (simp add: shots_in_range_alt shots_ok_def)
  from Some assms a b show ?thesis
    by (simp add: addPlayerToRoom_def Let_def every_room_update split: option.splits)
qed

lemma shots_removePlayerFromRoom:
  assumes "every_room shots_in_range st"
  shows "every_room shots_in_range (snd (removePlayerFromRoom now roomId playerId st))"
proof (cases "map_of st roomId")
  case None
  with assms show ?thesis by (simp add: removePlayerFromRoom_def)
next
  case (Some room)
  from every_room_lookup [OF assms Some] have r: "shots_in_range room" .
  show ?thesis
  proof (cases "findIndex (\<lambda>p. player_id p = playerId) (players room)")
    case None
    with Some assms show ?thesis by (simp add: removePlayerFromRoom_def)
  next
    case (Some i)
    from findIndex_Some [OF Some] have i: "i < length (players room)" by simp
    obtain res room1 where d: "detach_player now i room = (res, room1)" by force
    from shots_detach_player [OF r i, of now] d have r1: "shots_in_range room1" by simp
    then have r2: "shots_in_range (room1\<lparr>hostId := h, lastActivity := now\<rparr>)"
      "shots_in_range (room1\<lparr>lastActivity := now\<rparr>)" for h
      by (simp_all add: shots_in_range_def)
    from \<open>map_of st roomId = Some room\<close> Some d assms r1 r2 show ?thesis
      by (auto simp: removePlayerFromRoom_def removeRoom_def Let_def every_room_update
          every_room_delete split: outcome.splits option.splits)
  qed
qed

lemma shots_startGame:
  assumes "every_room shots_in_range st"
  shows "every_room shots_in_range (snd (startGame now roomId st))"
proof (cases "map_of st roomId")
  case None
  with assms show ?thesis by (simp add: startGame_def)
next
  case (Some room)
  from every_room_lookup [OF assms Some] have "shots_in_range room" .
  then have "shots_in_range (room\<lparr>status := Playing, currentPlayerIndex := 0,
                         players := mark_first_turn 0 (players room),
                         lastActivity := now\<rparr>)"
    by (simp add: shots_in_range_alt shots_mark_first_turn)
  with Some assms show ?thesis
    by (simp add: startGame_def every_room_update)
qed

lemma shots_nextTurn:
  assumes "every_room shots_in_range st"
  shows "every_room shots_in_range (snd (nextTurn now roomId st))"
proof (cases "map_of st roomId")
  case None
  with assms show ?thesis by (simp add: nextTurn_def)
next
  case (Some room)
  from every_room_lookup [OF assms Some] have "shots_in_range room" .
  from shots_nextTurn_room [OF this, of now] Some assms show ?thesis
    by (cases "nextTurn_room now room") (simp add: nextTurn_def every_room_update)
qed

lemma shots_updatePlayerScore:
  assumes "every_room shots_in_range st"
    and "has_shot_left st (UpdatePlayerScore roomId playerId s)"
  shows "every_room shots_in_range (snd (updatePlayerScore now roomId playerId s st))"
proof (cases "updatePlayerScore now roomId playerId s st")
  case (Pair ok st')
  show ?thesis
  proof (cases ok)
    case False
    with Pair have "st' = st"
      by (auto simp: updatePlayerScore_def Let_def split: option.splits if_splits)
    with Pair assms show ?thesis by simp
  next
    case True
    with Pair obtain room i where room: "map_of st roomId = Some room"
      and idx: "findIndex (\<lambda>p. player_id p = playerId) (players room) = Some i"
      and turn: "isCurrentTurn (players room ! i)"
      by (auto elim: updatePlayerScore_True_cases)
    from every_room_lookup [OF assms(1) room] have r: "shots_in_range room" .
    from assms(2) room idx turn have "1 \<le> shotsRemaining (players room ! i)"
      by (simp add: findIndex_find)
    with r have "shots_in_range (room\<lparr>players := (players room)[i := (players room ! i)
                        \<lparr>score := score (players room ! i) + s,
                         shotsRemaining := shotsRemaining (players room ! i) - 1\<rparr>],
                     lastActivity := now\<rparr>)"
      by (simp add: shots_in_range_alt shots_ok_update)
    with updatePlayerScore_accepts [OF room idx turn, of now s] assms(1) show ?thesis
      by (simp add: every_room_update)
  qed
qed

lemma shots_resetGame:
  assumes "every_room shots_in_range st"
  shows "every_room shots_in_range (snd (resetGame now roomId st))"
proof (cases "map_of st roomId")
  case None
  with assms show ?thesis by (simp add: resetGame_def)
next
  case (Some room)
  from every_room_lookup [OF assms Some] have r: "shots_in_range room" .
  show ?thesis
  proof (cases "players room")
    case Nil
    with Some assms r show ?thesis
      by (simp add: resetGame_def every_room_update shots_in_range_def)
  next
    case (Cons p0 rest)
    with Some assms r show ?thesis
      by (auto simp: resetGame_def Let_def shots_in_range_def intro!: every_room_update)
  qed
qed

lemma shots_step:
  "every_room shots_in_range st \<Longrightarrow> has_shot_left st c \<Longrightarrow>
   every_room shots_in_range (apply_op now c st)"
proof (cases c)
  case (UpdatePlayerScore roomId playerId s)
  assume "every_room shots_in_range st" "has_shot_left st c"
  with UpdatePlayerScore show ?thesis
    using shots_updatePlayerScore [of st roomId playerId s now] by simp
qed (simp_all add: shots_createRoom shots_addPlayerToRoom shots_removePlayerFromRoom
    shots_startGame shots_nextTurn shots_resetGame)

lemma addPlayerToRoom_joined:
  assumes "addPlayerToRoom now roomId player st = (True, st')"
  shows "\<exists>room room' p.
           map_of st roomId = Some room \<and> map_of st' roomId = Some room' \<and>
           shotsPerPlayer room' = shotsPerPlayer room \<and>
           find (\<lambda>q. player_id q = player_id player) (players room') = Some p \<and>
           shotsRemaining p = shotsPerPlayer room"
proof -
  from assms obtain room where room: "map_of st roomId = Some room"
    and ok: "\<not> maxPlayers room \<le> int (length (players room))" "status room = Waiting"
    by (auto simp: addPlayerToRoom_def split: option.splits if_splits)
  let ?P = "\<lambda>q. player_id q = player_id player"
  show ?thesis
  proof (cases "findIndex ?P (players room)")
    case None
    let ?p = "player\<lparr>score := 0, shotsRemaining := shotsPerPlayer room,
                     isConnected := True, isCurrentTurn := False\<rparr>"
    let ?room' = "room\<lparr>players := players room @ [?p], lastActivity := now\<rparr>"
    from assms room ok None have st': "st' = AList.update roomId ?room' st"
      by (simp add: addPlayerToRoom_def)
    from None have "find ?P (players room) = None" by (simp add: findIndex_find)
    then have f: "find ?P (players ?room') = Some ?p"
      by (simp add: find_append_cases)
    show ?thesis
      apply (rule exI [of _ room], rule exI [of _ ?room'], rule exI [of _ ?p])
      using f by (simp add: room st' update_conv')
  next
    case (Some i)
    let ?p = "player\<lparr>shotsRemaining := shotsPerPlayer room, isConnected := True\<rparr>"
    let ?room' = "room\<lparr>players := (players room)[i := ?p], lastActivity := now\<rparr>"
    from assms room ok Some have st': "st' = AList.update roomId ?room' st"
      by (simp add: addPlayerToRoom_def)
    from findIndex_Some [OF Some] have i: "i < length (players room)" by simp
    from findIndex_update [OF Some, of ?p] have "findIndex ?P ((players room)[i := ?p]) = Some i"
      by simp
    with i have f: "find ?P (players ?room') = Some ?p"
      by (simp add: findIndex_find)
    show ?thesis
      apply (rule exI [of _ room], rule exI [of _ ?room'], rule exI [of _ ?p])
      using f by (simp add: room st' update_conv')
  qed
qed

lemma shots_run:
  assumes "every_room shots_in_range st" and "allowed has_shot_left cs st"
  shows "every_room shots_in_range (run cs st)"
  using assms
proof (induction cs arbitrary: st)
  case Nil
  then show ?case by simp
next
  case (Cons x cs)
  obtain now c where x: "x = (now, c)" by (cases x)
  with Cons.prems have "every_room shots_in_range (apply_op now c st)"
    "allowed has_shot_left cs (apply_op now c st)"
    by (simp_all add: shots_step)
  with Cons.IH x show ?case by simp
qed

text \<open>
  Claim C3, as the code has it. A player's \<open>shotsRemaining\<close> starts at the room's
  \<open>shotsPerPlayer\<close>: \<open>createRoom\<close> gives the host the shot count of the new room, and
  every \<open>addPlayerToRoom\<close> that succeeds gives the player who joined (or joined again)
  the room's \<open>shotsPerPlayer\<close>. From a store in which no room has a negative
  \<open>shotsPerPlayer\<close> or a player with a negative \<open>shotsRemaining\<close> (the empty store is
  one), every sequence of \<open>createRoom\<close>, \<open>addPlayerToRoom\<close>, \<open>startGame\<close>,
  \<open>updatePlayerScore\<close>, \<open>nextTurn\<close>, \<open>resetGame\<close> and \<open>removePlayerFromRoom\<close> keeps
  \<open>shotsRemaining \<ge> 0\<close> for every player of every room, provided every room in it is
  created with \<open>shotsPerPlayer \<ge> 0\<close> and every score that is accepted is for a player
  who has at least one shot left.
\<close>

theorem shotsRemaining_never_negative:
  "(\<forall>p \<in> set (players (fst (createRoom roomId host hostName wallet roomName maxP shots
        reward t st0))). shotsRemaining p = shots) \<and>
   shotsPerPlayer (fst (createRoom roomId host hostName wallet roomName maxP shots
        reward t st0)) = shots \<and>
   (addPlayerToRoom t' roomId' player st1 = (True, st2) \<longrightarrow>
      (\<exists>room room' p.
         map_of st1 roomId' = Some room \<and> map_of st2 roomId' = Some room' \<and>
         shotsPerPlayer room' = shotsPerPlayer room \<and>
         find (\<lambda>q. player_id q = player_id player) (players room') = Some p \<and>
         shotsRemaining p = shotsPerPlayer room)) \<and>
   (every_room shots_in_range st \<and> allowed has_shot_left cs st \<longrightarrow>
      every_room shots_in_range (run cs st))"
proof (intro conjI impI)
  show "\<forall>p \<in> set (players (fst (createRoom roomId host hostName wallet roomName maxP shots
        reward t st0))). shotsRemaining p = shots"
    by (simp add: createRoom_def Let_def)
  show "shotsPerPlayer (fst (createRoom roomId host hostName wallet roomName maxP shots
        reward t st0)) = shots"
    by (simp add: createRoom_def Let_def)
next
  assume "addPlayerToRoom t' roomId' player st1 = (True, st2)"
  then show "\<exists>room room' p.
         map_of st1 roomId' = Some room \<and> map_of st2 roomId' = Some room' \<and>
         shotsPerPlayer room' = shotsPerPlayer room \<and>
         find (\<lambda>q. player_id q = player_id player) (players room') = Some p \<and>
         shotsRemaining p = shotsPerPlayer room"
    by (rule addPlayerToRoom_joined)
next
  assume "every_room shots_in_range st \<and> allowed has_shot_left cs st"
  then show "every_room shots_in_range (run cs st)"
    by (simp add: shots_run)
qed

text \<open>Pia joins Hana's room, and the fair game from the empty store.\<close>

theorem shotsRemaining_never_negative_witness:
  "addPlayerToRoom 101 ''R1'' pia lobby1 = (True, lobby2) \<and>
   (\<exists>room room' p.
      map_of lobby1 ''R1'' = Some room \<and> map_of lobby2 ''R1'' = Some room' \<and>
      shotsPerPlayer room' = shotsPerPlayer room \<and>
      find (\<lambda>q. player_id q = player_id pia) (players room') = Some p \<and>
      shotsRemaining p = shotsPerPlayer room) \<and>
   every_room shots_in_range [] \<and> allowed has_shot_left fair_game [] \<and>
   every_room shots_in_range (run fair_game [])"
proof -
  have a: "addPlayerToRoom 101 ''R1'' pia lobby1 = (True, lobby2)"
    by (simp add: lobby2_def lobby1_eq addPlayerToRoom_def pia_def)
  have e: "every_room shots_in_range []" by (simp add: every_room_def)
  note inst = shotsRemaining_never_negative [of "''R1''" "''H''" "''Hana''" "''GH''" "''Room''" 4 1 7
      100 "[]" 101 "''R1''" pia lobby1 lobby2 "[]" fair_game]
  from inst a e fair_game_allowed show ?thesis by blast
qed

text \<open>The claim as stated is about every sequence of the listed calls. In the greedy
  game, made of such calls only, Hana's second score is accepted with no shot left and
  her counter is \<open>-1\<close>.\<close>

theorem shotsRemaining_negative_counterexample:
  "allowed by_the_rules greedy_game [] \<and>
   map (\<lambda>(k, room). (status room, shotsPerPlayer room, map shotsRemaining (players room)))
     (run greedy_game []) = [(Playing, 1, [- 1, 1, 1])] \<and>
   \<not> every_room shots_in_range (run greedy_game [])"
  by (simp add: greedy_game_def allowed_append run_append warm_up_allowed warm_up_run
      started_eq play_defs every_room_def shots_in_range_def)

subsection \<open>The turn\<close>

lemma turn_ok_not_playing: "status room \<noteq> Playing \<Longrightarrow> turn_ok room"
  by (simp add: turn_ok_def)

lemma turn_ok_hold_turn:
  "j < length ps \<Longrightarrow> players room = hold_turn j ps \<Longrightarrow> currentPlayerIndex room = j \<Longrightarrow>
   turn_ok room"
  by (simp add: turn_ok_def one_holder nth_hold_turn)

lemma filter_flags:
  "length (filter isCurrentTurn ps) = length (filter (\<lambda>b. b) (map isCurrentTurn ps))"
  by (simp add: filter_map comp_def)

lemma turn_ok_same_flags:
  assumes "turn_ok room" "status room' = status room"
    "map isCurrentTurn (players room') = map isCurrentTurn (players room)"
    "currentPlayerIndex room' = currentPlayerIndex room"
  shows "turn_ok room'"
proof -
  from assms(3) have len: "length (players room') = length (players room)"
    by (rule map_eq_imp_length_eq)
  have nth: "isCurrentTurn (players room' ! i) = isCurrentTurn (players room ! i)"
    if "i < length (players room)" for i
    using that len assms(3) by (metis nth_map)
  from assms(3) have "length (filter isCurrentTurn (players room'))
      = length (filter isCurrentTurn (players room))"
    by (simp add: filter_flags)
  with assms(1,2,4) len nth show ?thesis
    by (auto simp: turn_ok_def)
qed

lemma flags_update:
  "i < length ps \<Longrightarrow> isCurrentTurn p = isCurrentTurn (ps ! i) \<Longrightarrow>
   map isCurrentTurn (ps[i := p]) = map isCurrentTurn ps"
  by (simp add: map_update list_update_same_conv)

lemma turn_nextTurn_room:
  assumes "turn_ok room"
  shows "turn_ok (snd (nextTurn_room now room))"
proof -
  from nextTurn_room_forms [of now room]
  consider "snd (nextTurn_room now room) = room"
    | "snd (nextTurn_room now room) = room\<lparr>status := Completed, lastActivity := now\<rparr>"
    | j s where "j < length (players room)"
        "snd (nextTurn_room now room) =
           room\<lparr>players := hold_turn j (players room), currentPlayerIndex := j, status := s,
                 lastActivity := now\<rparr>"
    by blast
  then show ?thesis
  proof cases
    case 1
    with assms show ?thesis by simp
  next
    case 2
    then show ?thesis by (simp add: turn_ok_not_playing)
  next
    case 3
    then show ?thesis
      by (simp add: turn_ok_hold_turn [of j "players room"])
  qed
qed

lemma turn_detach_player:
  assumes "turn_ok room" "i < length (players room)"
  shows "turn_ok (snd (detach_player now i room))"
proof (cases "status room = Playing")
  case False
  then show ?thesis
    by (simp add: detach_player_def turn_ok_not_playing)
next
  case True
  let ?room1 = "room\<lparr>players := (players room)[i := (players room ! i)\<lparr>isConnected := False\<rparr>]\<rparr>"
  have r1: "turn_ok ?room1"
    using assms by (intro turn_ok_same_flags [OF assms(1)]) (simp_all add: flags_update)
  have "snd (detach_player now i room) = ?room1 \<or>
        snd (detach_player now i room) = snd (nextTurn_room now ?room1)"
    using True by (auto simp: detach_player_def Let_def split: prod.splits outcome.splits)
  with r1 turn_nextTurn_room [OF r1, of now] show ?thesis by auto
qed

lemma turn_createRoom:
  "every_room turn_ok st \<Longrightarrow>
   every_room turn_ok
     (snd (createRoom roomId host hostName wallet roomName maxP shots reward now st))"
  by (simp add: createRoom_def Let_def every_room_update turn_ok_not_playing)

lemma turn_addPlayerToRoom:
  assumes "every_room turn_ok st"
  shows "every_room turn_ok (snd (addPlayerToRoom now roomId player st))"
proof (cases "map_of st roomId")
  case None
  with assms show ?thesis by (simp add: addPlayerToRoom_def)
next
  case (Some room)
  have "turn_ok (room\<lparr>players := ps, lastActivity := now\<rparr>)" if "status room = Waiting" for ps
    using that by (simp add: turn_ok_not_playing)
  with Some assms show ?thesis
    by (simp add: addPlayerToRoom_def Let_def every_room_update)
qed

lemma turn_removePlayerFromRoom:
  assumes "every_room turn_ok st"
  shows "every_room turn_ok (snd (removePlayerFromRoom now roomId playerId st))"
proof (cases "map_of st roomId")
  case None
  with assms show ?thesis by (simp add: removePlayerFromRoom_def)
next
  case (Some room)
  from every_room_lookup [OF assms Some] have r: "turn_ok room" .
  show ?thesis
  proof (cases "findIndex (\<lambda>p. player_id p = playerId) (players room)")
    case None
    with Some assms show ?thesis by (simp add: removePlayerFromRoom_def)
  next
    case (Some i)
    from findIndex_Some [OF Some] have i: "i < length (players room)" by simp
    obtain res room1 where d: "detach_player now i room = (res, room1)" by force
    from turn_detach_player [OF r i, of now] d have r1: "turn_ok room1" by simp
    then have r2: "turn_ok (room1\<lparr>hostId := h, lastActivity := now\<rparr>)"
      "turn_ok (room1\<lparr>lastActivity := now\<rparr>)" for h
      by (simp_all add: turn_ok_def)
    from \<open>map_of st roomId = Some room\<close> Some d assms r1 r2 show ?thesis
      by (auto simp: removePlayerFromRoom_def removeRoom_def Let_def every_room_update
          every_room_delete split: outcome.splits option.splits)
  qed
qed

lemma turn_startGame:
  assumes "every_room turn_ok st"
  shows "every_room turn_ok (snd (startGame now roomId st))"
proof (cases "map_of st roomId")
  case None
  with assms show ?thesis by (simp add: startGame_def)
next
  case (Some room)
  have "turn_ok (room\<lparr>status := Playing, currentPlayerIndex := 0,
                         players := mark_first_turn 0 (players room),
                         lastActivity := now\<rparr>)"
    if "\<not> length (players room) < 2"
    using that by (intro turn_ok_hold_turn [of 0 "players room"]) (auto simp: mark_first_turn_0)
  with Some assms show ?thesis
    by (simp add: startGame_def every_room_update)
qed

lemma turn_nextTurn:
  assumes "every_room turn_ok st"
  shows "every_room turn_ok (snd (nextTurn now roomId st))"
proof (cases "map_of st roomId")
  case None
  with assms show ?thesis by (simp add: nextTurn_def)
next
  case (Some room)
  from every_room_lookup [OF assms Some] have "turn_ok room" .
  from turn_nextTurn_room [OF this, of now] Some assms show ?thesis
    by (cases "nextTurn_room now room") (simp add: nextTurn_def every_room_update)
qed

lemma turn_updatePlayerScore:
  assumes "every_room turn_ok st"
  shows "every_room turn_ok (snd (updatePlayerScore now roomId playerId s st))"
proof (cases "updatePlayerScore now roomId playerId s st")
  case (Pair ok st')
  show ?thesis
  proof (cases ok)
    case False
    with Pair have "st' = st"
      by (auto simp: updatePlayerScore_def Let_def split: option.splits if_splits)
    with Pair assms show ?thesis by simp
  next
    case True
    with Pair obtain room i where room: "map_of st roomId = Some room"
      and idx: "findIndex (\<lambda>p. player_id p = playerId) (players room) = Some i"
      and turn: "isCurrentTurn (players room ! i)"
      by (auto elim: updatePlayerScore_True_cases)
    from every_room_lookup [OF assms(1) room] have r: "turn_ok room" .
    from findIndex_Some [OF idx] have i: "i < length (players room)" by simp
    have "turn_ok (room\<lparr>players := (players room)[i := (players room ! i)
                        \<lparr>score := score (players room ! i) + s,
                         shotsRemaining := shotsRemaining (players room ! i) - 1\<rparr>],
                     lastActivity := now\<rparr>)"
      using i by (intro turn_ok_same_flags [OF r]) (simp_all add: flags_update)
    with updatePlayerScore_accepts [OF room idx turn, of now s] assms(1) show ?thesis
      by (simp add: every_room_update)
  qed
qed

lemma turn_resetGame:
  assumes "every_room turn_ok st"
  shows "every_room turn_ok (snd (resetGame now roomId st))"
proof (cases "map_of st roomId")
  case None
  with assms show ?thesis by (simp add: resetGame_def)
next
  case (Some room)
  with assms show ?thesis
    by (auto simp: resetGame_def Let_def turn_ok_not_playing split: list.splits
        intro!: every_room_update)
qed

lemma turn_step:
  "every_room turn_ok st \<Longrightarrow> by_the_rules st c \<Longrightarrow> every_room turn_ok (apply_op now c st)"
  by (cases c) (simp_all add: turn_createRoom turn_addPlayerToRoom turn_removePlayerFromRoom
      turn_startGame turn_nextTurn turn_updatePlayerScore turn_resetGame)

text \<open>
  Claim C4, as the code has it. From a store in which every \<open>playing\<close> room has exactly
  one player with \<open>isCurrentTurn\<close> and a \<open>currentPlayerIndex\<close> that is the index of a
  player with \<open>isCurrentTurn\<close> (the empty store is one), every sequence of calls other
  than \<open>updatePlayerInRoom\<close> and \<open>updateRoom\<close> leads to a store of which the same is
  true.
\<close>

theorem one_turn_holder_by_the_rules:
  assumes "every_room turn_ok st" and "allowed by_the_rules cs st"
  shows "every_room turn_ok (run cs st)"
  using assms
proof (induction cs arbitrary: st)
  case Nil
  then show ?case by simp
next
  case (Cons x cs)
  obtain now c where x: "x = (now, c)" by (cases x)
  with Cons.prems have "every_room turn_ok (apply_op now c st)"
    "allowed by_the_rules cs (apply_op now c st)"
    by (simp_all add: turn_step)
  with Cons.IH x show ?case by simp
qed

text \<open>The game in which Pia leaves during her turn, from the empty store: the room is
  still \<open>playing\<close> and Quinn, at index 2, is the one holder of the turn.\<close>

theorem one_turn_holder_by_the_rules_witness:
  "every_room turn_ok [] \<and> allowed by_the_rules mid_game [] \<and>
   every_room turn_ok (run mid_game []) \<and>
   map (\<lambda>(k, room). (status room, currentPlayerIndex room, map isCurrentTurn (players room)))
     (run mid_game []) = [(Playing, 2, [False, False, True])]"
proof -
  have e: "every_room turn_ok []" by (simp add: every_room_def)
  from one_turn_holder_by_the_rules [OF e mid_game_allowed(2)] e mid_game_allowed(2)
  show ?thesis by (simp add: mid_game_run)
qed

text \<open>The claim as stated includes \<open>updatePlayerInRoom\<close> and \<open>updateRoom\<close>. The first
  puts a second holder of the turn into the running game, the second moves
  \<open>currentPlayerIndex\<close> to a player who does not hold the turn.\<close>

theorem turn_broken_counterexample:
  "map (\<lambda>(k, room). (status room, currentPlayerIndex room, map isCurrentTurn (players room)))
     (run replaced_game []) = [(Playing, 0, [True, True, False])] \<and>
   \<not> every_room turn_ok (run replaced_game []) \<and>
   map (\<lambda>(k, room). (status room, currentPlayerIndex room, map isCurrentTurn (players room)))
     (run moved_game []) = [(Playing, 1, [True, False, False])] \<and>
   \<not> every_room turn_ok (run moved_game [])"
  by (simp add: replaced_game_def moved_game_def no_updates_def run_append warm_up_run
      started_eq play_defs pia_def every_room_def turn_ok_def)

end
